theory Spec2Isabelle
  imports Complex_Main "HOL-Library.Sublist" "HOL-Library.Multiset" "HOL-Library.Word"
begin

section \<open>Strings as Python sees them\<close>

text \<open>
  Strings are modelled as lists of 8-bit characters and are read as ASCII text: one
  \<^typ>\<open>char\<close> is one Python character. Python floats are modelled as exact reals, so
  the literals \<open>0.3\<close>, \<open>0.98\<close>, ... are the rationals they denote.

  \<open>is_space\<close> is \<open>str.isspace\<close> on ASCII (the characters \<open>str.strip\<close>,
  \<open>str.split\<close> and the regular expression class \<open>\s\<close> treat as whitespace),
  \<open>is_digit\<close> is the class \<open>\d\<close> on ASCII, \<open>lower\<close> is \<open>str.lower\<close> on ASCII
  (an upper-case letter gets bit 5 set, which adds 32 to its code).
\<close>

definition is_space :: "char \<Rightarrow> bool" where
  "is_space c = (of_char c \<in> {9, 10, 11, 12, 13, 28, 29, 30, 31, 32 :: nat})"

definition is_digit :: "char \<Rightarrow> bool" where
  "is_digit c = (48 \<le> (of_char c :: nat) \<and> (of_char c :: nat) \<le> 57)"

definition lower_char :: "char \<Rightarrow> char" where
  "lower_char c =
     (if 65 \<le> (of_char c :: nat) \<and> (of_char c :: nat) \<le> 90
      then (case c of Char b0 b1 b2 b3 b4 b5 b6 b7 \<Rightarrow> Char b0 b1 b2 b3 b4 True b6 b7)
      else c)"

definition lower :: "string \<Rightarrow> string" where
  "lower s = map lower_char s"

definition strip :: "string \<Rightarrow> string" where
  "strip s = rev (dropWhile is_space (rev (dropWhile is_space s)))"

text \<open>\<open>str.split()\<close> without arguments: the maximal runs of non-whitespace, in order.\<close>

function split_ws :: "string \<Rightarrow> string list" where
  "split_ws [] = []"
| "split_ws (c # cs) =
     (if is_space c then split_ws cs
      else takeWhile (\<lambda>x. \<not> is_space x) (c # cs) # split_ws (dropWhile (\<lambda>x. \<not> is_space x) cs))"
  by pat_completeness auto
termination
  by (relation "measure length") (auto simp: le_imp_less_Suc length_dropWhile_le)

text \<open>\<open>sub in s\<close>: the substring test, scanning the start positions from the left.\<close>

fun py_in :: "string \<Rightarrow> string \<Rightarrow> bool" where
  "py_in sub [] = (sub = [])"
| "py_in sub (c # cs) = (prefix sub (c # cs) \<or> py_in sub cs)"

section \<open>utils.normalize\_pages\<close>

text \<open>
  The substitution \<open>re.sub(r'^(pages?|pp?\.?)\s*', '', pages, flags=re.IGNORECASE)\<close>.
  \<open>match_ci p s\<close> matches the lower-case literal \<open>p\<close> at the start of \<open>s\<close> ignoring
  case and returns the rest; \<open>opt_ci\<close> is a greedy optional literal. Every part of the
  pattern after the alternation can match the empty string, so the first alternative that
  matches is the one taken and each optional part is taken whenever it is there. The
  pattern is anchored at the start, so at most one match is replaced.
\<close>

fun match_ci :: "string \<Rightarrow> string \<Rightarrow> string option" where
  "match_ci [] s = Some s"
| "match_ci (p # ps) [] = None"
| "match_ci (p # ps) (c # cs) = (if lower_char c = p then match_ci ps cs else None)"

definition opt_ci :: "string \<Rightarrow> string \<Rightarrow> string" where
  "opt_ci p s = (case match_ci p s of Some r \<Rightarrow> r | None \<Rightarrow> s)"

definition strip_label :: "string \<Rightarrow> string" where
  "strip_label s =
     (case match_ci ''page'' s of
        Some r \<Rightarrow> dropWhile is_space (opt_ci ''s'' r)
      | None \<Rightarrow>
          (case match_ci ''p'' s of
             Some r \<Rightarrow> dropWhile is_space (opt_ci ''.'' (opt_ci ''p'' r))
           | None \<Rightarrow> s))"

text \<open>\<open>re.findall(r'\d+', pages)\<close>: scan to the next digit, take digits greedily, go on
  after them.\<close>

function findall_digits :: "string \<Rightarrow> string list" where
  "findall_digits [] = []"
| "findall_digits (c # cs) =
     (if is_digit c
      then takeWhile is_digit (c # cs) # findall_digits (dropWhile is_digit cs)
      else findall_digits cs)"
  by pat_completeness auto
termination
  by (relation "measure length") (auto simp: le_imp_less_Suc length_dropWhile_le)

definition normalize_pages :: "string \<Rightarrow> string option" where
  "normalize_pages pages =
     (if pages = [] then None
      else
        let numbers = findall_digits (strip_label pages) in
        if length numbers \<ge> 2 then Some (numbers ! 0 @ ''-'' @ numbers ! 1)
        else if length numbers = 1 then Some (numbers ! 0)
        else None)"

text \<open>
  The specification's reading of "all maximal digit runs in order", written without the
  regular expression: walk the string once, collecting the digits of the current run and
  closing the run at every character that is not a digit and at the end.
\<close>

fun runs_from :: "string \<Rightarrow> string \<Rightarrow> string list" where
  "runs_from acc [] = (if acc = [] then [] else [acc])"
| "runs_from acc (c # cs) =
     (if is_digit c then runs_from (acc @ [c]) cs
      else (if acc = [] then [] else [acc]) @ runs_from [] cs)"

definition spec_digit_runs :: "string \<Rightarrow> string list" where
  "spec_digit_runs s = runs_from [] s"

section \<open>utils.similarity\_score\<close>

text \<open>
  The containment branch (\<open>if str1 in str2\<close>): the score is read off the difference of
  the word counts and the ratio of the lengths. The \<open>elif\<close> chain is kept in its order.
\<close>

definition containment_score :: "string \<Rightarrow> string \<Rightarrow> real" where
  "containment_score str1 str2 =
     (let len_ratio = (if length str2 > 0 then real (length str1) / real (length str2) else 0);
          words1_count = int (length (split_ws str1));
          words2_count = int (length (split_ws str2));
          word_diff = words2_count - words1_count
      in if word_diff = 0 then 0.98
         else if word_diff \<le> 1 \<and> len_ratio > 0.8 then 0.95
         else if word_diff \<le> 2 \<and> len_ratio > 0.7 then 0.85
         else if word_diff \<le> 3 then 0.75
         else 0.6)"

text \<open>\<open>list.index\<close>: the first position of \<open>w\<close>; \<open>None\<close> stands for \<open>ValueError\<close>.\<close>

fun py_index :: "'a list \<Rightarrow> 'a \<Rightarrow> nat option" where
  "py_index [] w = None"
| "py_index (x # xs) w = (if x = w then Some 0 else map_option Suc (py_index xs w))"

text \<open>
  The comprehension \<open>[words2_list.index(w) for w in words1_list if w in words2_list]\<close>
  inside its \<open>try\<close>: \<open>None\<close> when \<open>index\<close> raises.
\<close>

fun indices_of :: "'a list \<Rightarrow> 'a list \<Rightarrow> nat list option" where
  "indices_of words2_list [] = Some []"
| "indices_of words2_list (w # ws) =
     (if w \<in> set words2_list then
        (case py_index words2_list w of
           None \<Rightarrow> None
         | Some i \<Rightarrow>
             (case indices_of words2_list ws of None \<Rightarrow> None | Some rest \<Rightarrow> Some (i # rest)))
      else indices_of words2_list ws)"

text \<open>\<open>all(indices1[i] < indices1[i+1] for i in range(len(indices1)-1))\<close>.\<close>

fun is_ordered :: "nat list \<Rightarrow> bool" where
  "is_ordered (a # b # rest) = (a < b \<and> is_ordered (b # rest))"
| "is_ordered [a] = True"
| "is_ordered [] = True"

definition order_score :: "string list \<Rightarrow> string list \<Rightarrow> real" where
  "order_score words1 words2 =
     (if card (set words1 \<inter> set words2) > 0 then
        let words1_list = filter (\<lambda>w. w \<in> set words2) words1;
            words2_list = filter (\<lambda>w. w \<in> set words1) words2
        in if length words1_list > 1 then
             (case indices_of words2_list words1_list of
                None \<Rightarrow> 0
              | Some indices1 \<Rightarrow>
                  if length indices1 > 1 then (if is_ordered indices1 then 0.3 else 0.1)
                  else 0)
           else 0
      else 0)"

text \<open>The word-set branch, for two non-empty word lists.\<close>

definition word_set_score :: "string list \<Rightarrow> string list \<Rightarrow> real" where
  "word_set_score words1 words2 =
     (let set1 = set words1;
          set2 = set words2;
          intersection = card (set1 \<inter> set2);
          union = card (set1 \<union> set2);
          jaccard_score = (if union > 0 then real intersection / real union else 0);
          coverage_score = (if card set1 > 0 then real intersection / real (card set1) else 0);
          len_diff = \<bar>int (length words1) - int (length words2)\<bar>;
          max_len = max (length words1) (length words2);
          length_score = (if max_len > 0 then 1 - real_of_int len_diff / real max_len else 0);
          final_score = coverage_score * 0.5 + jaccard_score * 0.3 + length_score * 0.15
                        + order_score words1 words2 * 0.05
      in if coverage_score \<ge> 1 then min 1 (final_score * 1.1) else final_score)"

definition similarity_score :: "string \<Rightarrow> string \<Rightarrow> real" where
  "similarity_score s1 s2 =
     (let str1 = strip (lower s1);
          str2 = strip (lower s2)
      in if str1 = str2 then 1
         else if py_in str1 str2 then containment_score str1 str2
         else
           let words1 = split_ws str1;
               words2 = split_ws str2
           in if words1 = [] \<or> words2 = [] then 0
              else word_set_score words1 words2)"

text \<open>
  The shared words of a string: its words that also occur in the other string, with
  their repetitions and in the order they have there.
\<close>

definition shared_words :: "string list \<Rightarrow> string list \<Rightarrow> string list" where
  "shared_words ws other = filter (\<lambda>w. w \<in> set other) ws"





text \<open>The first position of a word in a list, as \<open>list.index\<close> finds it.\<close>

definition first_pos :: "'a list \<Rightarrow> 'a \<Rightarrow> nat" where
  "first_pos xs w = length (takeWhile (\<lambda>x. x \<noteq> w) xs)"

section \<open>searcher: the source clients\<close>

text \<open>
  A client sends one request and works on the decoded answer. The request is outside the
  model: \<open>Failed\<close> stands for every network, HTTP or decoding error (each handler returns
  \<open>None\<close>), \<open>Hits\<close> carries the raw hits, each with the title the client reads from it and
  the rest of the hit. The function that maps the chosen hit to a record is a parameter;
  it returns \<open>None\<close> where the source's function raises, which \<open>except Exception\<close>
  turns into \<open>None\<close>.
\<close>

datatype 'a response = Failed | Hits "(string \<times> 'a) list"

text \<open>
  The loop \<open>for paper in papers: score = similarity_score(query, title);
  if score > best_score: ...\<close> of the Semantic Scholar, CrossRef and Google Scholar clients.
\<close>

fun best_match_loop ::
  "string \<Rightarrow> (string \<times> 'a) list \<Rightarrow> (string \<times> 'a) option \<Rightarrow> real
    \<Rightarrow> (string \<times> 'a) option \<times> real" where
  "best_match_loop query [] best_match best_score = (best_match, best_score)"
| "best_match_loop query (paper # papers) best_match best_score =
     (let score = similarity_score query (fst paper)
      in if score > best_score then best_match_loop query papers (Some paper) score
         else best_match_loop query papers best_match best_score)"

text \<open>
  What follows the loop in the three clients: nothing for an empty answer, nothing when
  the best score is below 0.3, the best match otherwise.
\<close>

definition select_best :: "string \<Rightarrow> (string \<times> 'a) list \<Rightarrow> (string \<times> 'a) option" where
  "select_best query papers =
     (if papers = [] then None
      else
        (case best_match_loop query papers None 0 of
           (best_match, best_score) \<Rightarrow> if best_score < 0.3 then None else best_match))"

text \<open>
  \<open>SemanticScholarSearcher.search\<close> and \<open>CrossRefSearcher.search\<close> hand the best
  match to their \<open>_parse_paper_info\<close>; \<open>GoogleScholarSearcher.search\<close> returns the
  best match itself.
\<close>

definition semantic_scholar_search ::
  "(string \<times> 'a \<Rightarrow> 'r option) \<Rightarrow> string \<Rightarrow> 'a response \<Rightarrow> 'r option" where
  "semantic_scholar_search parse_paper_info query resp =
     (case resp of
        Failed \<Rightarrow> None
      | Hits papers \<Rightarrow>
          (case select_best query papers of
             None \<Rightarrow> None
           | Some best_match \<Rightarrow> parse_paper_info best_match))"

definition crossref_search ::
  "(string \<times> 'a \<Rightarrow> 'r option) \<Rightarrow> string \<Rightarrow> 'a response \<Rightarrow> 'r option" where
  "crossref_search parse_paper_info query resp =
     (case resp of
        Failed \<Rightarrow> None
      | Hits items \<Rightarrow>
          (case select_best query items of
             None \<Rightarrow> None
           | Some best_match \<Rightarrow> parse_paper_info best_match))"

definition google_scholar_search :: "string \<Rightarrow> 'a response \<Rightarrow> (string \<times> 'a) option" where
  "google_scholar_search query resp =
     (case resp of Failed \<Rightarrow> None | Hits results \<Rightarrow> select_best query results)"

text \<open>\<open>PMLRSearcher.search\<close> returns \<open>None\<close> on every path.\<close>

definition pmlr_search :: "string \<Rightarrow> 'r option" where
  "pmlr_search query = None"

subsection \<open>DBLPSearcher.search\<close>

record 'a candidate =
  c_info :: 'a
  c_score :: real
  c_title :: string
  c_word_diff :: int

text \<open>The score of one hit after the penalty and the bonus, with its word difference.\<close>

definition dblp_score :: "string \<Rightarrow> string \<Rightarrow> real \<times> int" where
  "dblp_score query title =
     (let score = similarity_score query title;
          query_words = int (length (split_ws query));
          title_words = int (length (split_ws title));
          word_diff = title_words - query_words;
          score = (if word_diff > 3 then score * 0.7
                   else if word_diff > 1 then score * 0.9
                   else score);
          score = (if \<bar>word_diff\<bar> \<le> 1 \<and> score > 0.5 then min 1 (score * 1.1) else score)
      in (score, word_diff))"

fun dblp_candidates :: "string \<Rightarrow> (string \<times> 'a) list \<Rightarrow> 'a candidate list" where
  "dblp_candidates query [] = []"
| "dblp_candidates query (hit # hits) =
     (case dblp_score query (fst hit) of
        (score, word_diff) \<Rightarrow>
          if score > 0
          then \<lparr>c_info = snd hit, c_score = score, c_title = fst hit, c_word_diff = word_diff\<rparr>
               # dblp_candidates query hits
          else dblp_candidates query hits)"

text \<open>\<open>candidates.sort(key=lambda x: x['score'], reverse=True)\<close>: descending and stable.\<close>

definition sort_by_score :: "'a candidate list \<Rightarrow> 'a candidate list" where
  "sort_by_score candidates = sort_key (\<lambda>c. - c_score c) candidates"

definition query_coverage :: "string \<Rightarrow> string \<Rightarrow> real" where
  "query_coverage query title =
     (let query_words_set = set (split_ws (lower query));
          candidate_words_set = set (split_ws (lower title))
      in if query_words_set \<noteq> {}
         then real (card (query_words_set \<inter> candidate_words_set)) / real (card query_words_set)
         else 0)"

definition tie_break_step :: "string \<Rightarrow> 'a candidate \<Rightarrow> 'a candidate \<Rightarrow> 'a candidate" where
  "tie_break_step query candidate best_candidate =
     (let score_diff = c_score best_candidate - c_score candidate
      in if score_diff < 0.05 then
           if c_word_diff candidate < c_word_diff best_candidate then
             if query_coverage query (c_title candidate) \<ge> 1 then candidate
             else best_candidate
           else best_candidate
         else best_candidate)"

text \<open>\<open>best_candidate = candidates[0]; for i in range(1, min(3, len(candidates))): ...\<close>\<close>

definition tie_break :: "string \<Rightarrow> 'a candidate list \<Rightarrow> 'a candidate" where
  "tie_break query candidates =
     fold (\<lambda>i best_candidate. tie_break_step query (candidates ! i) best_candidate)
       [1..<min 3 (length candidates)] (candidates ! 0)"

text \<open>
  \<open>DBLPSearcher.search\<close>: score the hits, keep those with a positive score, sort, break
  ties among the top three, apply the threshold to the candidate chosen.
\<close>

definition dblp_search ::
  "('a \<Rightarrow> 'r option) \<Rightarrow> string \<Rightarrow> 'a response \<Rightarrow> 'r option" where
  "dblp_search parse_paper_info query resp =
     (case resp of
        Failed \<Rightarrow> None
      | Hits hits \<Rightarrow>
          if hits = [] then None
          else
            let candidates = dblp_candidates query hits
            in if candidates = [] then None
               else
                 let best_candidate = tie_break query (sort_by_score candidates)
                 in if c_score best_candidate < 0.3 then None
                    else parse_paper_info (c_info best_candidate))"

text \<open>
  The promotion rule of the tie-break. \<open>spec_promotes\<close> is the rule in the specification's
  words; \<open>promotes\<close> is the rule with the code's guard on a query without words.
\<close>

definition spec_promotes :: "string \<Rightarrow> 'a candidate \<Rightarrow> 'a candidate \<Rightarrow> bool" where
  "spec_promotes query best candidate \<longleftrightarrow>
     c_score best - c_score candidate < 0.05
     \<and> c_word_diff candidate < c_word_diff best
     \<and> set (split_ws (lower query)) \<subseteq> set (split_ws (lower (c_title candidate)))"

definition promotes :: "string \<Rightarrow> 'a candidate \<Rightarrow> 'a candidate \<Rightarrow> bool" where
  "promotes query best candidate \<longleftrightarrow>
     c_score best - c_score candidate < 0.05
     \<and> c_word_diff candidate < c_word_diff best
     \<and> split_ws (lower query) \<noteq> []
     \<and> set (split_ws (lower query)) \<subseteq> set (split_ws (lower (c_title candidate)))"

section \<open>hashlib.md5 (RFC 1321)\<close>

text \<open>
  The cache key is an MD5 digest. MD5 is library code; it is written out here after
  RFC 1321 so that the cache keys of concrete queries can be computed. A 32-bit word is a
  natural number below \<open>2^32\<close>, with the wrap-around of addition and rotation written
  out; bytes are natural numbers below 256, words are read little-endian.
\<close>

definition add32 :: "nat \<Rightarrow> nat \<Rightarrow> nat" where
  "add32 x y = (x + y) mod 4294967296"

definition not32 :: "nat \<Rightarrow> nat" where
  "not32 x = 4294967295 - x"

definition rotl32 :: "nat \<Rightarrow> nat \<Rightarrow> nat" where
  "rotl32 x n = (x * 2 ^ n) mod 4294967296 + x div 2 ^ (32 - n)"

text \<open>The four round functions of RFC 1321.\<close>

definition md5_F :: "nat \<Rightarrow> nat \<Rightarrow> nat \<Rightarrow> nat" where
  "md5_F b c d = or (and b c) (and (not32 b) d)"

definition md5_G :: "nat \<Rightarrow> nat \<Rightarrow> nat \<Rightarrow> nat" where
  "md5_G b c d = or (and d b) (and (not32 d) c)"

definition md5_H :: "nat \<Rightarrow> nat \<Rightarrow> nat \<Rightarrow> nat" where
  "md5_H b c d = xor b (xor c d)"

definition md5_I :: "nat \<Rightarrow> nat \<Rightarrow> nat \<Rightarrow> nat" where
  "md5_I b c d = xor c (or b (not32 d))"

text \<open>The sine table \<open>K\<close> and the rotation amounts \<open>s\<close>.\<close>

definition md5_K :: "nat list" where
  "md5_K =
    [0xd76aa478, 0xe8c7b756, 0x242070db, 0xc1bdceee, 0xf57c0faf, 0x4787c62a, 0xa8304613, 0xfd469501,
     0x698098d8, 0x8b44f7af, 0xffff5bb1, 0x895cd7be, 0x6b901122, 0xfd987193, 0xa679438e, 0x49b40821,
     0xf61e2562, 0xc040b340, 0x265e5a51, 0xe9b6c7aa, 0xd62f105d, 0x02441453, 0xd8a1e681, 0xe7d3fbc8,
     0x21e1cde6, 0xc33707d6, 0xf4d50d87, 0x455a14ed, 0xa9e3e905, 0xfcefa3f8, 0x676f02d9, 0x8d2a4c8a,
     0xfffa3942, 0x8771f681, 0x6d9d6122, 0xfde5380c, 0xa4beea44, 0x4bdecfa9, 0xf6bb4b60, 0xbebfbc70,
     0x289b7ec6, 0xeaa127fa, 0xd4ef3085, 0x04881d05, 0xd9d4d039, 0xe6db99e5, 0x1fa27cf8, 0xc4ac5665,
     0xf4292244, 0x432aff97, 0xab9423a7, 0xfc93a039, 0x655b59c3, 0x8f0ccc92, 0xffeff47d, 0x85845dd1,
     0x6fa87e4f, 0xfe2ce6e0, 0xa3014314, 0x4e0811a1, 0xf7537e82, 0xbd3af235, 0x2ad7d2bb, 0xeb86d391]"

definition md5_s :: "nat list" where
  "md5_s =
    [7, 12, 17, 22, 7, 12, 17, 22, 7, 12, 17, 22, 7, 12, 17, 22,
     5, 9, 14, 20, 5, 9, 14, 20, 5, 9, 14, 20, 5, 9, 14, 20,
     4, 11, 16, 23, 4, 11, 16, 23, 4, 11, 16, 23, 4, 11, 16, 23,
     6, 10, 15, 21, 6, 10, 15, 21, 6, 10, 15, 21, 6, 10, 15, 21]"

text \<open>Step \<open>i\<close> of the 64 steps on one block \<open>m\<close> of sixteen words.\<close>

fun md5_step :: "nat list \<Rightarrow> nat \<Rightarrow> nat \<times> nat \<times> nat \<times> nat \<Rightarrow> nat \<times> nat \<times> nat \<times> nat" where
  "md5_step m i (a, b, c, d) =
     (d,
      add32 b
        (rotl32
          (add32 (add32 a
             (if i < 16 then md5_F b c d else if i < 32 then md5_G b c d
              else if i < 48 then md5_H b c d else md5_I b c d))
             (add32 (md5_K ! i)
               (m ! (if i < 16 then i else if i < 32 then (5 * i + 1) mod 16
                     else if i < 48 then (3 * i + 5) mod 16 else (7 * i) mod 16))))
          (md5_s ! i)),
      b, c)"

fun md5_block :: "nat \<times> nat \<times> nat \<times> nat \<Rightarrow> nat list \<Rightarrow> nat \<times> nat \<times> nat \<times> nat" where
  "md5_block (a0, b0, c0, d0) m =
     (case fold (md5_step m) [0..<64] (a0, b0, c0, d0) of
        (a, b, c, d) \<Rightarrow> (add32 a0 a, add32 b0 b, add32 c0 c, add32 d0 d))"

fun le_bytes :: "nat \<Rightarrow> nat \<Rightarrow> nat list" where
  "le_bytes 0 x = []"
| "le_bytes (Suc k) x = (x mod 256) # le_bytes k (x div 256)"

fun le_word :: "nat list \<Rightarrow> nat" where
  "le_word [] = 0"
| "le_word (b # bs) = b + 256 * le_word bs"

text \<open>Padding: a one bit, zeros up to 56 modulo 64 bytes, the bit length in 8 bytes.\<close>

definition md5_pad :: "nat list \<Rightarrow> nat list" where
  "md5_pad bs =
     bs @ [128] @ replicate ((119 - length bs mod 64) mod 64) 0 @ le_bytes 8 (8 * length bs)"

fun chunks :: "nat \<Rightarrow> nat \<Rightarrow> 'a list \<Rightarrow> 'a list list" where
  "chunks 0 n xs = []"
| "chunks (Suc k) n xs = take n xs # chunks k n (drop n xs)"

definition md5_words :: "nat list \<Rightarrow> nat list" where
  "md5_words block = map le_word (chunks 16 4 block)"

definition md5 :: "nat list \<Rightarrow> nat list" where
  "md5 bs =
    (case fold (\<lambda>blk st. md5_block st (md5_words blk))
            (chunks (length (md5_pad bs) div 64) 64 (md5_pad bs))
            (0x67452301, 0xefcdab89, 0x98badcfe, 0x10325476) of
       (a, b, c, d) \<Rightarrow> le_bytes 4 a @ le_bytes 4 b @ le_bytes 4 c @ le_bytes 4 d)"

definition hex_digit :: "nat \<Rightarrow> char" where
  "hex_digit n = ''0123456789abcdef'' ! n"

definition hexdigest :: "nat list \<Rightarrow> string" where
  "hexdigest bs = concat (map (\<lambda>b. [hex_digit (b div 16), hex_digit (b mod 16)]) bs)"

text \<open>\<open>str.encode('utf-8')\<close> on ASCII text: one byte per character.\<close>

definition encode_utf8 :: "string \<Rightarrow> nat list" where
  "encode_utf8 s = map of_char s"

definition md5_hexdigest :: "string \<Rightarrow> string" where
  "md5_hexdigest s = hexdigest (md5 (encode_utf8 s))"

section \<open>cache.CacheManager\<close>

text \<open>
  The cache directory holds one payload file per key and one metadata file; the manager
  keeps the metadata it loaded in memory. A payload file is the JSON text of a record
  (\<open>Json\<close>, read back as the record that was written) or something \<open>json.load\<close>
  rejects (\<open>Unreadable\<close>). The clock is an argument of the operations that read it.

  The metadata is whatever JSON value \<open>json.load\<close> returns. It is an object (\<open>Dict\<close>)
  or another JSON value (\<open>NotADict\<close>); the value under a key is an object (\<open>Entry\<close>)
  or another JSON value (\<open>NotAnEntry\<close>). The \<open>cached_at\<close> field of an entry is
  missing or false in Python's truth test (\<open>NoStamp\<close>), a value
  \<open>datetime.fromisoformat\<close> rejects (\<open>BadStamp\<close>), an ISO time with a UTC offset
  (\<open>AwareStamp\<close>) or an ISO time without one (\<open>Stamp\<close>), in microseconds, the
  resolution of \<open>datetime\<close>.
\<close>

type_synonym cache_key = string

datatype 'r payload_file = Json 'r | Unreadable

datatype stamp = NoStamp | BadStamp | AwareStamp int | Stamp int

record meta_entry =
  m_query :: string
  cached_at :: stamp

text \<open>
  The JSON values that are not objects. Of an array only its strings matter (\<open>None\<close>
  is an element that is not a string).
\<close>

datatype json_other = JNull | JBool bool | JNumber | JString string | JArray "string option list"

datatype entry_value = Entry meta_entry | NotAnEntry

datatype meta_value = Dict "cache_key \<rightharpoonup> entry_value" | NotADict json_other

datatype meta_file = NoMetaFile | MetaUnreadable | MetaJson meta_value

record 'r cache =
  files :: "cache_key \<rightharpoonup> 'r payload_file"
  metadata_file :: meta_file
  metadata :: meta_value

datatype exn = ValueError | JSONDecodeError | IndexError | AttributeError | TypeError

text \<open>\<open>config.CACHE_EXPIRY_DAYS\<close> and \<open>timedelta(days=1)\<close> in microseconds.\<close>

definition CACHE_EXPIRY_DAYS :: int where
  "CACHE_EXPIRY_DAYS = 30"

definition day :: int where
  "day = 86400000000"

text \<open>
  \<open>_load_metadata\<close>: the empty dictionary when there is no file or reading it raises,
  else the value \<open>json.load\<close> returns, whatever its shape.
\<close>

definition load_metadata :: "meta_file \<Rightarrow> meta_value" where
  "load_metadata f =
     (case f of
        NoMetaFile \<Rightarrow> Dict Map.empty
      | MetaUnreadable \<Rightarrow> Dict Map.empty
      | MetaJson v \<Rightarrow> v)"

text \<open>\<open>CacheManager.__init__\<close> on a cache directory.\<close>

definition open_cache :: "(cache_key \<rightharpoonup> 'r payload_file) \<Rightarrow> meta_file \<Rightarrow> 'r cache" where
  "open_cache fs mf = \<lparr>files = fs, metadata_file = mf, metadata = load_metadata mf\<rparr>"

definition save_metadata :: "'r cache \<Rightarrow> 'r cache" where
  "save_metadata c = c\<lparr>metadata_file := MetaJson (metadata c)\<rparr>"

definition get_cache_key :: "string \<Rightarrow> cache_key" where
  "get_cache_key query = md5_hexdigest (lower query)"

text \<open>
  \<open>cache_key in self.metadata\<close> on a value that is not an object: a substring test on
  a string, an element test on an array, \<open>TypeError\<close> on the others.
\<close>

definition key_in_other :: "cache_key \<Rightarrow> json_other \<Rightarrow> exn + bool" where
  "key_in_other k v =
     (case v of
        JNull \<Rightarrow> Inl TypeError
      | JBool b \<Rightarrow> Inl TypeError
      | JNumber \<Rightarrow> Inl TypeError
      | JString s \<Rightarrow> Inr (py_in k s)
      | JArray xs \<Rightarrow> Inr (Some k \<in> set xs))"

text \<open>
  \<open>delete\<close> returns the exception that leaves it, if any, and the cache as it is then.
  The payload file is removed first. On metadata that is not an object the membership
  test or the \<open>del\<close> statement raises \<open>TypeError\<close>.
\<close>

definition delete :: "string \<Rightarrow> 'r cache \<Rightarrow> exn option \<times> 'r cache" where
  "delete query c =
     (let cache_key = get_cache_key query;
          c1 = (if files c cache_key \<noteq> None then c\<lparr>files := (files c)(cache_key := None)\<rparr>
                else c)
      in case metadata c1 of
           Dict m \<Rightarrow>
             if m cache_key \<noteq> None
             then (None, save_metadata (c1\<lparr>metadata := Dict (m(cache_key := None))\<rparr>))
             else (None, c1)
         | NotADict v \<Rightarrow>
             (case key_in_other cache_key v of
                Inl e \<Rightarrow> (Some e, c1)
              | Inr True \<Rightarrow> (Some TypeError, c1)
              | Inr False \<Rightarrow> (None, c1)))"

text \<open>
  \<open>self.metadata.get(cache_key, {}).get('cached_at')\<close>: \<open>AttributeError\<close> when the
  metadata, or the value under the key, is not an object.
\<close>

definition metadata_cached_at :: "meta_value \<Rightarrow> cache_key \<Rightarrow> exn + stamp" where
  "metadata_cached_at v k =
     (case v of
        NotADict other \<Rightarrow> Inl AttributeError
      | Dict m \<Rightarrow>
          (case m k of
             None \<Rightarrow> Inr NoStamp
           | Some NotAnEntry \<Rightarrow> Inl AttributeError
           | Some (Entry e) \<Rightarrow> Inr (cached_at e)))"

datatype datetime = Naive int | Aware int

definition fromisoformat :: "stamp \<Rightarrow> exn + datetime" where
  "fromisoformat s =
     (case s of
        Stamp t \<Rightarrow> Inr (Naive t)
      | AwareStamp t \<Rightarrow> Inr (Aware t)
      | BadStamp \<Rightarrow> Inl ValueError
      | NoStamp \<Rightarrow> Inl ValueError)"

definition plus_days :: "datetime \<Rightarrow> int \<Rightarrow> datetime" where
  "plus_days d n = (case d of Naive t \<Rightarrow> Naive (t + n * day) | Aware t \<Rightarrow> Aware (t + n * day))"

text \<open>\<open>datetime.now() > d\<close>: the clock is naive, a comparison with an aware time raises.\<close>

definition now_after :: "int \<Rightarrow> datetime \<Rightarrow> exn + bool" where
  "now_after now d = (case d of Naive t \<Rightarrow> Inr (now > t) | Aware t \<Rightarrow> Inl TypeError)"

definition json_load :: "'r payload_file \<Rightarrow> exn + 'r" where
  "json_load f = (case f of Json data \<Rightarrow> Inr data | Unreadable \<Rightarrow> Inl JSONDecodeError)"

text \<open>
  The last part of \<open>get\<close>: open and read the payload file, \<open>None\<close> when that raises
  (the file is gone or is not JSON).
\<close>

definition read_cache :: "'r payload_file option \<Rightarrow> 'r option" where
  "read_cache f =
     (case f of
        None \<Rightarrow> None
      | Some cache_file \<Rightarrow> (case json_load cache_file of Inr data \<Rightarrow> Some data | Inl e \<Rightarrow> None))"

text \<open>
  \<open>get\<close> returns the cached record or \<open>None\<close>, or the exception that leaves it, and the
  cache as it is then. Reading the time stamp from the metadata stands outside any
  \<open>try\<close>. The expiry check stands inside one whose handler is \<open>pass\<close>: it is skipped
  when the entry has no time stamp, and abandoned when parsing the stamp, comparing it
  with the clock or the \<open>delete\<close> raises.
\<close>

definition get :: "int \<Rightarrow> string \<Rightarrow> 'r cache \<Rightarrow> (exn + 'r option) \<times> 'r cache" where
  "get now query c =
     (let cache_key = get_cache_key query
      in if files c cache_key = None then (Inr None, c)
         else
           (case metadata_cached_at (metadata c) cache_key of
              Inl e \<Rightarrow> (Inl e, c)
            | Inr cached_time_str \<Rightarrow>
                if cached_time_str \<noteq> NoStamp then
                  (case fromisoformat cached_time_str of
                     Inl e \<Rightarrow> (Inr (read_cache (files c cache_key)), c)
                   | Inr cached_time \<Rightarrow>
                       (case now_after now (plus_days cached_time CACHE_EXPIRY_DAYS) of
                          Inl e \<Rightarrow> (Inr (read_cache (files c cache_key)), c)
                        | Inr False \<Rightarrow> (Inr (read_cache (files c cache_key)), c)
                        | Inr True \<Rightarrow>
                            (case delete query c of
                               (None, c') \<Rightarrow> (Inr None, c')
                             | (Some e, c') \<Rightarrow> (Inr (read_cache (files c' cache_key)), c'))))
                else (Inr (read_cache (files c cache_key)), c)))"

text \<open>
  \<open>set\<close>. \<open>writable\<close> says whether the payload file could be written. When it could
  not, or when the metadata is not an object and the item assignment raises
  \<open>TypeError\<close>, the exception is caught and printed and nothing more happens.
\<close>

definition set_cache :: "bool \<Rightarrow> int \<Rightarrow> string \<Rightarrow> 'r \<Rightarrow> 'r cache \<Rightarrow> 'r cache" where
  "set_cache writable now query data c =
     (let cache_key = get_cache_key query
      in if writable then
           (let c1 = c\<lparr>files := (files c)(cache_key \<mapsto> Json data)\<rparr>
            in case metadata c1 of
                 Dict m \<Rightarrow>
                   save_metadata
                     (c1\<lparr>metadata :=
                           Dict (m(cache_key \<mapsto> Entry \<lparr>m_query = query, cached_at = Stamp now\<rparr>))\<rparr>)
               | NotADict v \<Rightarrow> c1)
         else c)"

text \<open>The value the metadata holds under a key, if it is an object and has the key.\<close>

definition metadata_entry :: "meta_value \<Rightarrow> cache_key \<Rightarrow> entry_value option" where
  "metadata_entry v k = (case v of Dict m \<Rightarrow> m k | NotADict other \<Rightarrow> None)"

definition is_dict :: "meta_value \<Rightarrow> bool" where
  "is_dict v = (case v of Dict m \<Rightarrow> True | NotADict other \<Rightarrow> False)"

text \<open>
  The metadata is an object, and the value it holds under the key, if any, is an object:
  the shape \<open>set\<close> writes.
\<close>

definition object_shaped_at :: "meta_value \<Rightarrow> cache_key \<Rightarrow> bool" where
  "object_shaped_at v k =
     (case v of
        NotADict other \<Rightarrow> False
      | Dict m \<Rightarrow> (case m k of None \<Rightarrow> True | Some NotAnEntry \<Rightarrow> False | Some (Entry e) \<Rightarrow> True))"

text \<open>A new cache directory: no payload files, no metadata file.\<close>

definition empty_cache :: "'r cache" where
  "empty_cache = open_cache Map.empty NoMetaFile"

text \<open>The payload file of a query damaged on disk.\<close>

definition corrupt_payload :: "string \<Rightarrow> 'r cache \<Rightarrow> 'r cache" where
  "corrupt_payload query c = c\<lparr>files := (files c)(get_cache_key query \<mapsto> Unreadable)\<rparr>"

text \<open>A new manager opened on the directory a cache leaves behind.\<close>

definition reopen :: "'r cache \<Rightarrow> 'r cache" where
  "reopen c = open_cache (files c) (metadata_file c)"

section \<open>searcher.PaperAgent\<close>

text \<open>
  The record a source client returns, with the keys the orchestrator reads or writes. A
  key that is missing and a key with the value \<open>None\<close> are both \<open>None\<close> here; \<open>truthy\<close>
  is Python's truth test on the value (\<open>None\<close> and the empty string are false), and
  \<open>py_or\<close> is Python's \<open>or\<close> on two such values.
\<close>

record paper =
  r_title :: string
  r_url :: "string option"
  r_dblp_url :: "string option"
  r_pdf_url :: "string option"
  r_doi :: "string option"
  r_pages :: "string option"
  r_pages_source :: "string option"
  r_bibtex :: "string option"

definition truthy :: "string option \<Rightarrow> bool" where
  "truthy v = (v \<noteq> None \<and> v \<noteq> Some [])"

definition py_or :: "string option \<Rightarrow> string option \<Rightarrow> string option" where
  "py_or a b = (if truthy a then a else b)"

text \<open>
  The extractors work on the network and on external tools. Each is a function of its
  arguments here, and \<open>None\<close> is its result when it finds nothing or fails: the
  extractors catch their own exceptions, and the calls that may raise stand inside
  \<open>try\<close> blocks of the orchestrator that go on as after \<open>None\<close>. \<open>doi_search\<close> is the
  group the regular expression \<open>doi\.org/([^/]+/?.*)\<close> finds in a URL, \<open>head_url\<close> the
  final URL of a HEAD request that follows redirects.
\<close>

record pmlr_result =
  pm_pages :: "string option"
  pm_bibtex :: "string option"

record env =
  doi2bib :: "string \<Rightarrow> string option"
  neurips_extract :: "string \<Rightarrow> string \<Rightarrow> string option"
  dblp_extract :: "string \<Rightarrow> string \<Rightarrow> string option"
  pmlr_extract :: "string \<Rightarrow> string \<Rightarrow> pmlr_result option"
  doi_search :: "string \<Rightarrow> string option"
  head_url :: "string \<Rightarrow> string option"
  llm_doi :: "string \<Rightarrow> string \<Rightarrow> string option"
  llm_url :: "string \<Rightarrow> string \<Rightarrow> string option"

text \<open>\<open>s.split(sep)\<close> and \<open>xs[n]\<close>, which raises \<open>IndexError\<close> out of range.\<close>

fun split_sep :: "char \<Rightarrow> string \<Rightarrow> string \<Rightarrow> string list" where
  "split_sep sep acc [] = [acc]"
| "split_sep sep acc (c # cs) =
     (if c = sep then acc # split_sep sep [] cs else split_sep sep (acc @ [c]) cs)"

definition py_nth :: "'a list \<Rightarrow> nat \<Rightarrow> 'a option" where
  "py_nth xs n = (if n < length xs then Some (xs ! n) else None)"

definition rstrip_char :: "char \<Rightarrow> string \<Rightarrow> string" where
  "rstrip_char ch s = rev (dropWhile (\<lambda>c. c = ch) (rev s))"

definition protected_domains :: "string list" where
  "protected_domains = [''dl.acm.org'', ''aclanthology.org'', ''ieee.org'']"

definition is_protected :: "string \<Rightarrow> bool" where
  "is_protected s = list_ex (\<lambda>domain. py_in domain s) protected_domains"

text \<open>
  \<open>_supplement_pages\<close>, step by step. A step that ends the function with \<open>return
  result\<close> gives \<open>Return\<close>, a step that falls through gives \<open>Continue\<close>.
\<close>

datatype 'a flow = Return 'a | Continue 'a

definition record_url :: "paper \<Rightarrow> string option" where
  "record_url r = py_or (py_or (r_url r) (r_dblp_url r)) (r_pdf_url r)"

definition neurips_step :: "env \<Rightarrow> paper \<Rightarrow> paper flow" where
  "neurips_step e r =
     (case record_url r of
        None \<Rightarrow> Continue r
      | Some u \<Rightarrow>
          if u \<noteq> [] \<and> (py_in ''neurips.cc'' (lower u) \<or> py_in ''nips.cc'' (lower u)) then
            (let pages = neurips_extract e u (r_title r)
             in if truthy pages
                then Return (r\<lparr>r_pages := pages, r_pages_source := Some ''neurips_bibtex''\<rparr>)
                else Continue r)
          else Continue r)"

definition dblp_step :: "env \<Rightarrow> string list \<Rightarrow> paper \<Rightarrow> paper flow" where
  "dblp_step e engines r =
     (case py_or (r_dblp_url r) (r_url r) of
        None \<Rightarrow> Continue r
      | Some u \<Rightarrow>
          if u \<noteq> [] \<and> (py_in ''dblp.org'' u \<or> ''dblp'' \<in> set engines) then
            (let pages = dblp_extract e u (r_title r)
             in if truthy pages
                then Return (r\<lparr>r_pages := pages, r_pages_source := Some ''web_extraction''\<rparr>)
                else Continue r)
          else Continue r)"

definition pmlr_step :: "env \<Rightarrow> paper \<Rightarrow> paper" where
  "pmlr_step e r =
     (case record_url r of
        None \<Rightarrow> r
      | Some u \<Rightarrow>
          if u \<noteq> [] \<and> py_in ''proceedings.mlr.press'' (lower u) then
            (case pmlr_extract e u (r_title r) of
               None \<Rightarrow> r
             | Some pmlr \<Rightarrow>
                 (let r1 = (if truthy (pm_pages pmlr) \<and> \<not> truthy (r_pages r)
                            then r\<lparr>r_pages := pm_pages pmlr, r_pages_source := Some ''pmlr''\<rparr>
                            else r)
                  in if truthy (pm_bibtex pmlr) \<and> \<not> truthy (r_bibtex r1)
                     then r1\<lparr>r_bibtex := pm_bibtex pmlr\<rparr>
                     else r1))
          else r)"

text \<open>The first \<open>try\<close> of the DOI branch: resolve the DOI to a citation.\<close>

definition doi2bib_step :: "env \<Rightarrow> string \<Rightarrow> paper \<Rightarrow> paper flow" where
  "doi2bib_step e u r =
     (case doi_search e u of
        None \<Rightarrow> Continue r
      | Some g \<Rightarrow>
          (let pages = doi2bib e (rstrip_char CHR ''/'' g)
           in if truthy pages
              then Return (r\<lparr>r_pages := pages, r_pages_source := Some ''doi2bib''\<rparr>)
              else Continue r))"

text \<open>
  The second \<open>try\<close> of the DOI branch. An \<open>IndexError\<close> from
  \<open>redirected_url.split('/')[2]\<close> is caught there and the function goes on.
\<close>

definition llm_doi_step :: "env \<Rightarrow> string \<Rightarrow> paper \<Rightarrow> paper flow" where
  "llm_doi_step e u r =
     (case head_url e u of
        None \<Rightarrow> Continue r
      | Some redirected_url \<Rightarrow>
          (case (if CHR ''/'' \<in> set redirected_url
                 then py_nth (split_sep CHR ''/'' [] redirected_url) 2
                 else Some []) of
             None \<Rightarrow> Continue r
           | Some redirected_domain \<Rightarrow>
               if is_protected (lower redirected_domain) then Return r
               else
                 (let pages = llm_doi e u (r_title r)
                  in if truthy pages
                     then Return (r\<lparr>r_pages := pages,
                                    r_pages_source := Some ''llm_doi_extraction''\<rparr>)
                     else Continue r)))"

definition llm_step :: "env \<Rightarrow> string \<Rightarrow> paper \<Rightarrow> paper" where
  "llm_step e u r =
     (if \<not> is_protected (lower u) then
        (let pages = llm_url e u (r_title r)
         in if truthy pages
            then r\<lparr>r_pages := pages, r_pages_source := Some ''llm_extraction''\<rparr>
            else r)
      else r)"

text \<open>
  The last block of \<open>_supplement_pages\<close> (\<open>if not result.get('pages') and url\<close>). The
  message printed for a protected site evaluates \<open>url.split('/')[2]\<close> outside any
  \<open>try\<close>: \<open>Inl IndexError\<close> is that exception leaving the function.
\<close>

definition final_step :: "env \<Rightarrow> paper \<Rightarrow> exn + paper" where
  "final_step e r =
     (case record_url r of
        None \<Rightarrow> Inr r
      | Some u \<Rightarrow>
          if \<not> truthy (r_pages r) \<and> u \<noteq> [] then
            if is_protected (lower u) then
              (case py_nth (split_sep CHR ''/'' [] u) 2 of
                 None \<Rightarrow> Inl IndexError
               | Some host \<Rightarrow> Inr r)
            else if py_in ''doi.org'' (lower u) \<or> prefix ''https://doi.org/'' u
                    \<or> prefix ''http://doi.org/'' u then
              (case doi2bib_step e u r of
                 Return r' \<Rightarrow> Inr r'
               | Continue r1 \<Rightarrow>
                   (case llm_doi_step e u r1 of
                      Return r' \<Rightarrow> Inr r'
                    | Continue r2 \<Rightarrow> Inr (llm_step e u r2)))
            else Inr (llm_step e u r)
          else Inr r)"

definition supplement_pages :: "env \<Rightarrow> paper \<Rightarrow> string list \<Rightarrow> exn + paper" where
  "supplement_pages e r engines =
     (case neurips_step e r of
        Return r' \<Rightarrow> Inr r'
      | Continue r1 \<Rightarrow>
          (case dblp_step e engines r1 of
             Return r' \<Rightarrow> Inr r'
           | Continue r2 \<Rightarrow> final_step e (pmlr_step e r2)))"

text \<open>
  \<open>PaperAgent.search\<close> after a client has returned \<open>result\<close>: the DOI block, then the
  supplementary cascade.
\<close>

definition doi_stage :: "env \<Rightarrow> paper \<Rightarrow> paper" where
  "doi_stage e r =
     (case r_doi r of
        None \<Rightarrow> r
      | Some doi \<Rightarrow>
          if doi \<noteq> [] then
            if \<not> truthy (r_pages r) then
              (let pages = doi2bib e doi
               in if truthy pages
                  then r\<lparr>r_pages := pages, r_pages_source := Some ''doi2bib''\<rparr>
                  else r)
            else r
          else r)"

definition extraction_stage :: "env \<Rightarrow> string list \<Rightarrow> paper \<Rightarrow> exn + paper" where
  "extraction_stage e engines r =
     (let r1 = doi_stage e r
      in if \<not> truthy (r_pages r1) then supplement_pages e r1 engines else Inr r1)"

text \<open>
  The loop of \<open>search\<close> over the engines; \<open>searchers\<close> maps an engine name to the
  \<open>search\<close> of its client with its answers. \<open>Inr None\<close> is "not found".
\<close>

fun engine_loop ::
  "env \<Rightarrow> (string \<rightharpoonup> (string \<Rightarrow> paper option)) \<Rightarrow> string list \<Rightarrow> string \<Rightarrow> string list
    \<Rightarrow> exn + paper option" where
  "engine_loop e searchers engines query [] = Inr None"
| "engine_loop e searchers engines query (engine_name # rest) =
     (case searchers engine_name of
        None \<Rightarrow> engine_loop e searchers engines query rest
      | Some searcher \<Rightarrow>
          (case searcher query of
             None \<Rightarrow> engine_loop e searchers engines query rest
           | Some result \<Rightarrow>
               (case extraction_stage e engines result of
                  Inl x \<Rightarrow> Inl x
                | Inr r \<Rightarrow> Inr (Some r))))"

text \<open>
  \<open>config.SEARCH_ENGINES\<close>, and \<open>engines = search_engines or config.SEARCH_ENGINES\<close>:
  the argument \<open>None\<close> and the empty list both give the configured engines.
\<close>

definition SEARCH_ENGINES :: "string list" where
  "SEARCH_ENGINES = [''dblp'', ''google_scholar'', ''crossref'']"

definition engines_or_default :: "string list option \<Rightarrow> string list" where
  "engines_or_default search_engines =
     (case search_engines of
        None \<Rightarrow> SEARCH_ENGINES
      | Some [] \<Rightarrow> SEARCH_ENGINES
      | Some (engine # engines) \<Rightarrow> engine # engines)"

text \<open>
  \<open>search\<close>: the cache lookup, the engine loop, the write-back. An exception that
  leaves \<open>get\<close> or the cascade leaves \<open>search\<close>.
\<close>

definition search ::
  "env \<Rightarrow> (string \<rightharpoonup> (string \<Rightarrow> paper option)) \<Rightarrow> bool \<Rightarrow> int \<Rightarrow> string \<Rightarrow> bool
    \<Rightarrow> string list option \<Rightarrow> paper cache \<Rightarrow> (exn + paper option) \<times> paper cache" where
  "search e searchers writable now query use_cache search_engines c =
     (case (if use_cache then get now query c else (Inr None, c)) of
        (Inl x, c1) \<Rightarrow> (Inl x, c1)
      | (Inr (Some cached_result), c1) \<Rightarrow> (Inr (Some cached_result), c1)
      | (Inr None, c1) \<Rightarrow>
          (let engines = engines_or_default search_engines
           in case engine_loop e searchers engines query engines of
                Inl x \<Rightarrow> (Inl x, c1)
              | Inr None \<Rightarrow> (Inr None, c1)
              | Inr (Some result) \<Rightarrow>
                  (Inr (Some result),
                   if use_cache then set_cache writable now query result c1 else c1)))"

text \<open>
  Two environments and a record for concrete runs: \<open>offline\<close>, where no extractor
  finds anything, and \<open>neurips_only p\<close>, where only the NeurIPS page yields the pages
  \<open>p\<close>; a record of the NeurIPS proceedings that already has its pages.
\<close>

definition offline :: env where
  "offline =
     \<lparr>doi2bib = (\<lambda>doi. None), neurips_extract = (\<lambda>u t. None), dblp_extract = (\<lambda>u t. None),
      pmlr_extract = (\<lambda>u t. None), doi_search = (\<lambda>u. None), head_url = (\<lambda>u. None),
      llm_doi = (\<lambda>u t. None), llm_url = (\<lambda>u t. None)\<rparr>"


definition example_record :: paper where
  "example_record =
     \<lparr>r_title = ''Attention is All You Need'',
      r_url = Some ''https://papers.nips.cc/paper/7181'',
      r_dblp_url = None, r_pdf_url = None, r_doi = None,
      r_pages = Some ''5998-6008'', r_pages_source = None, r_bibtex = None\<rparr>"

text \<open>A DBLP client that answers every query with that record.\<close>

definition example_searchers :: "string \<rightharpoonup> (string \<Rightarrow> paper option)" where
  "example_searchers = [''dblp'' \<mapsto> (\<lambda>q. Some example_record)]"

section \<open>Properties of normalize\_pages\<close>

lemma runs_from_findall:
  "runs_from acc s =
     (if acc = [] then findall_digits s
      else (acc @ takeWhile is_digit s) # findall_digits (dropWhile is_digit s))"
proof (induction s arbitrary: acc)
  case Nil
  then show ?case by simp
next
  case (Cons c cs)
  show ?case
  proof (cases "is_digit c")
    case True
    then show ?thesis
      by (simp add: Cons.IH [of "acc @ [c]"])
  next
    case False
    then show ?thesis
      by (simp add: Cons.IH [of "[]"])
  qed
qed

lemma findall_digits_spec: "findall_digits s = spec_digit_runs s"
  by (simp add: spec_digit_runs_def runs_from_findall)

lemma findall_digits_runs_are_digits:
  "r \<in> set (findall_digits s) \<Longrightarrow> r \<noteq> [] \<and> (\<forall>c \<in> set r. is_digit c)"
proof (induction s rule: findall_digits.induct)
  case 1
  then show ?case by simp
next
  case (2 c cs)
  show ?case
  proof (cases "is_digit c")
    case True
    with 2(3) have "r = c # takeWhile is_digit cs \<or> r \<in> set (findall_digits (dropWhile is_digit cs))"
      by simp
    then show ?thesis
    proof
      assume "r = c # takeWhile is_digit cs"
      with True show ?thesis
        by (auto dest: set_takeWhileD)
    next
      assume "r \<in> set (findall_digits (dropWhile is_digit cs))"
      with True 2(1) show ?thesis by blast
    qed
  next
    case False
    with 2(2,3) show ?thesis by simp
  qed
qed

lemma filter_takeWhile_dropWhile:
  "filter P xs = takeWhile P xs @ filter P (dropWhile P xs)"
  by (induction xs) auto

lemma concat_findall_digits: "concat (findall_digits s) = filter is_digit s"
proof (induction s rule: findall_digits.induct)
  case 1
  then show ?case by simp
next
  case (2 c cs)
  show ?case
  proof (cases "is_digit c")
    case True
    with 2 show ?thesis
      using filter_takeWhile_dropWhile [of is_digit cs] by simp
  next
    case False
    with 2 show ?thesis by simp
  qed
qed

lemma findall_digits_dropWhile:
  "(\<And>c. P c \<Longrightarrow> \<not> is_digit c) \<Longrightarrow> findall_digits (dropWhile P s) = findall_digits s"
  by (induction s) auto

lemma is_digit_lower_char: "is_digit c \<Longrightarrow> lower_char c = c"
  by (simp add: is_digit_def lower_char_def)

lemma findall_digits_match_ci:
  "match_ci p s = Some r \<Longrightarrow> \<forall>x \<in> set p. \<not> is_digit x \<Longrightarrow> findall_digits s = findall_digits r"
proof (induction p s rule: match_ci.induct)
  case (1 s)
  then show ?case by simp
next
  case (2 p ps)
  then show ?case by simp
next
  case (3 p ps c cs)
  then have "lower_char c = p" and "\<not> is_digit p"
    by (auto split: if_splits)
  then have "\<not> is_digit c"
    using is_digit_lower_char by auto
  with 3 show ?case
    by (auto split: if_splits)
qed

lemma findall_digits_opt_ci:
  "\<forall>x \<in> set p. \<not> is_digit x \<Longrightarrow> findall_digits (opt_ci p s) = findall_digits s"
  by (auto simp: opt_ci_def split: option.splits dest: findall_digits_match_ci)

lemma is_space_not_digit: "is_space c \<Longrightarrow> \<not> is_digit c"
  by (auto simp: is_space_def is_digit_def)

lemma findall_digits_strip_label: "findall_digits (strip_label s) = findall_digits s"
proof -
  have p: "\<forall>x \<in> set ''page''. \<not> is_digit x" "\<forall>x \<in> set ''p''. \<not> is_digit x"
    "\<forall>x \<in> set ''s''. \<not> is_digit x" "\<forall>x \<in> set ''.''. \<not> is_digit x"
    by (simp_all add: is_digit_def)
  show ?thesis
    by (auto simp: strip_label_def findall_digits_dropWhile is_space_not_digit
        findall_digits_opt_ci p split: option.splits
        dest: findall_digits_match_ci [OF _ p(1)] findall_digits_match_ci [OF _ p(2)])
qed

text \<open>
  C1. For every input string, \<open>normalize_pages\<close> strips the leading label and takes the
  maximal digit runs of the rest in order: with no run the result is absent, with one run
  it is that run unchanged, with two or more it is the first run, a hyphen and the second
  run. The label never holds a digit, so the runs are those of the whole input. The text
  \<open>130136--130184\<close> is normalized to \<open>130136-130184\<close>.
\<close>

theorem normalize_pages_digit_runs:
  "normalize_pages s =
     (case spec_digit_runs (strip_label s) of
        [] \<Rightarrow> None
      | [a] \<Rightarrow> Some a
      | a # b # rest \<Rightarrow> Some (a @ ''-'' @ b))
   \<and> spec_digit_runs (strip_label s) = spec_digit_runs s
   \<and> normalize_pages ''130136--130184'' = Some ''130136-130184''"
proof -
  have empty: "strip_label [] = []"
    by (simp add: strip_label_def)
  have a: "normalize_pages s =
     (case spec_digit_runs (strip_label s) of
        [] \<Rightarrow> None
      | [a] \<Rightarrow> Some a
      | a # b # rest \<Rightarrow> Some (a @ ''-'' @ b))"
  proof (cases "s = []")
    case True
    then show ?thesis
      by (simp add: normalize_pages_def empty spec_digit_runs_def)
  next
    case False
    then show ?thesis
      by (simp add: normalize_pages_def findall_digits_spec Let_def split: list.splits)
  qed
  have b: "spec_digit_runs (strip_label s) = spec_digit_runs s"
    using findall_digits_strip_label by (simp add: findall_digits_spec)
  have c: "normalize_pages ''130136--130184'' = Some ''130136-130184''"
    by (simp add: normalize_pages_def strip_label_def lower_char_def is_digit_def)
  from a b c show ?thesis by simp
qed

theorem normalize_pages_digit_runs_witness:
  "strip_label ''pp. 123--145'' = ''123--145''
   \<and> normalize_pages ''pp. 123--145'' = Some ''123-145''
   \<and> strip_label ''Pages 7'' = ''7''
   \<and> normalize_pages ''Pages 7'' = Some ''7''
   \<and> normalize_pages ''pages n/a'' = None"
proof -
  have r1: "spec_digit_runs (strip_label ''pp. 123--145'') = [''123'', ''145'']"
    by (simp add: spec_digit_runs_def strip_label_def opt_ci_def lower_char_def
        is_digit_def is_space_def)
  have r2: "spec_digit_runs (strip_label ''Pages 7'') = [''7'']"
    by (simp add: spec_digit_runs_def strip_label_def opt_ci_def lower_char_def
        is_digit_def is_space_def)
  have r3: "spec_digit_runs (strip_label ''pages n/a'') = []"
    by (simp add: spec_digit_runs_def strip_label_def opt_ci_def lower_char_def
        is_digit_def is_space_def)
  have l: "strip_label ''pp. 123--145'' = ''123--145''" "strip_label ''Pages 7'' = ''7''"
    by (simp_all add: strip_label_def opt_ci_def lower_char_def is_space_def)
  have n: "normalize_pages ''pp. 123--145'' = Some ''123-145''
      \<and> normalize_pages ''Pages 7'' = Some ''7'' \<and> normalize_pages ''pages n/a'' = None"
    using normalize_pages_digit_runs [of "''pp. 123--145''"]
      normalize_pages_digit_runs [of "''Pages 7''"]
      normalize_pages_digit_runs [of "''pages n/a''"]
    by (simp only: r1 r2 r3 list.case) simp
  from l n show ?thesis
    by simp
qed

section \<open>Properties of similarity\_score\<close>

lemma py_in_sublist: "py_in sub s = sublist sub s"
  by (induction s) (simp_all add: sublist_Cons_right)

lemma py_in_iff: "py_in sub s \<longleftrightarrow> (\<exists>pre post. s = pre @ sub @ post)"
  by (simp add: py_in_sublist sublist_def)

lemma split_ws_words:
  "w \<in> set (split_ws s) \<Longrightarrow> w \<noteq> [] \<and> (\<forall>c \<in> set w. \<not> is_space c)"
proof (induction s rule: split_ws.induct)
  case 1
  then show ?case by simp
next
  case (2 c cs)
  show ?case
  proof (cases "is_space c")
    case True
    with 2(1,3) show ?thesis by simp
  next
    case False
    with 2(3) have "w = c # takeWhile (\<lambda>x. \<not> is_space x) cs
        \<or> w \<in> set (split_ws (dropWhile (\<lambda>x. \<not> is_space x) cs))"
      by simp
    then show ?thesis
    proof
      assume "w = c # takeWhile (\<lambda>x. \<not> is_space x) cs"
      with False show ?thesis
        by (auto dest: set_takeWhileD)
    next
      assume "w \<in> set (split_ws (dropWhile (\<lambda>x. \<not> is_space x) cs))"
      with False 2(2) show ?thesis by blast
    qed
  qed
qed

lemma concat_split_ws: "concat (split_ws s) = filter (\<lambda>c. \<not> is_space c) s"
proof (induction s rule: split_ws.induct)
  case 1
  then show ?case by simp
next
  case (2 c cs)
  show ?case
  proof (cases "is_space c")
    case True
    with 2 show ?thesis by simp
  next
    case False
    have "filter (\<lambda>c. \<not> is_space c) cs =
        takeWhile (\<lambda>c. \<not> is_space c) cs
        @ filter (\<lambda>c. \<not> is_space c) (dropWhile (\<lambda>c. \<not> is_space c) cs)"
      by (induction cs) auto
    with False 2 show ?thesis by simp
  qed
qed

lemma containment_score_range: "0 \<le> containment_score a b \<and> containment_score a b \<le> 1"
  by (simp add: containment_score_def Let_def)

lemma order_score_range: "0 \<le> order_score ws1 ws2 \<and> order_score ws1 ws2 \<le> 3 / 10"
  by (simp add: order_score_def Let_def split: option.splits)

lemma ratio_range:
  fixes a b :: nat
  assumes "a \<le> b"
  shows "0 \<le> real a / real b \<and> real a / real b \<le> 1"
proof (cases "b = 0")
  case True
  then show ?thesis by simp
next
  case False
  with assms show ?thesis by (simp add: divide_le_eq)
qed

lemma word_set_score_range: "0 \<le> word_set_score ws1 ws2 \<and> word_set_score ws1 ws2 \<le> 1"
proof -
  define i where "i = card (set ws1 \<inter> set ws2)"
  define cov where "cov = (if card (set ws1) > 0 then real i / real (card (set ws1)) else 0)"
  define jac where
    "jac = (if card (set ws1 \<union> set ws2) > 0 then real i / real (card (set ws1 \<union> set ws2)) else 0)"
  define ld where "ld = \<bar>int (length ws1) - int (length ws2)\<bar>"
  define ml where "ml = max (length ws1) (length ws2)"
  define ls where "ls = (if ml > 0 then 1 - real_of_int ld / real ml else 0)"
  define ord where "ord = order_score ws1 ws2"
  define fin where "fin = cov * 0.5 + jac * 0.3 + ls * 0.15 + ord * 0.05"
  have score: "word_set_score ws1 ws2 = (if cov \<ge> 1 then min 1 (fin * 1.1) else fin)"
    by (simp add: word_set_score_def Let_def i_def cov_def jac_def ld_def ml_def ls_def
        ord_def fin_def)
  have "i \<le> card (set ws1)"
    unfolding i_def by (simp add: card_mono)
  then have cov: "0 \<le> cov \<and> cov \<le> 1"
    unfolding cov_def using ratio_range by simp
  have "i \<le> card (set ws1 \<union> set ws2)"
    unfolding i_def by (rule card_mono) auto
  then have jac: "0 \<le> jac \<and> jac \<le> 1"
    unfolding jac_def using ratio_range by simp
  have "0 \<le> ld" "nat ld \<le> ml"
    unfolding ld_def ml_def by auto
  moreover from \<open>0 \<le> ld\<close> have "real_of_int ld = real (nat ld)"
    by simp
  ultimately have "0 \<le> real_of_int ld / real ml \<and> real_of_int ld / real ml \<le> 1"
    using ratio_range [of "nat ld" ml] by (simp only:)
  then have ls: "0 \<le> ls \<and> ls \<le> 1"
    unfolding ls_def by simp
  have ord: "0 \<le> ord \<and> ord \<le> 3 / 10"
    unfolding ord_def by (rule order_score_range)
  have fin: "0 \<le> fin \<and> fin \<le> 1"
    unfolding fin_def using cov jac ls ord by simp
  show ?thesis
    unfolding score using fin by simp
qed

text \<open>
  C10. For every pair of input strings the score lies in the closed interval from 0 to 1:
  the exact match gives 1, the containment tiers are constants in the interval, and the
  weighted word-set combination is non-negative and at most 1, also after the bonus
  factor 1.1, which is capped at 1.
\<close>

theorem similarity_score_range:
  "0 \<le> similarity_score s1 s2 \<and> similarity_score s1 s2 \<le> 1"
proof -
  define str1 where "str1 = strip (lower s1)"
  define str2 where "str2 = strip (lower s2)"
  consider (exact) "str1 = str2"
    | (contained) "str1 \<noteq> str2" "py_in str1 str2"
    | (no_words) "str1 \<noteq> str2" "\<not> py_in str1 str2"
        "split_ws str1 = [] \<or> split_ws str2 = []"
    | (word_sets) "str1 \<noteq> str2" "\<not> py_in str1 str2"
        "split_ws str1 \<noteq> []" "split_ws str2 \<noteq> []"
    by blast
  then show ?thesis
  proof cases
    case exact
    then show ?thesis
      by (simp add: similarity_score_def str1_def str2_def)
  next
    case contained
    then have "similarity_score s1 s2 = containment_score str1 str2"
      by (simp add: similarity_score_def str1_def str2_def)
    then show ?thesis
      using containment_score_range [of str1 str2] by simp
  next
    case no_words
    then have "similarity_score s1 s2 = 0"
      by (auto simp: similarity_score_def str1_def str2_def Let_def)
    then show ?thesis by simp
  next
    case word_sets
    then have "similarity_score s1 s2 = word_set_score (split_ws str1) (split_ws str2)"
      by (simp add: similarity_score_def str1_def str2_def)
    then show ?thesis
      using word_set_score_range [of "split_ws str1" "split_ws str2"] by simp
  qed
qed

theorem similarity_score_range_witness:
  "0 \<le> similarity_score ''Attention'' ''attention is all you need''
   \<and> similarity_score ''Attention'' ''attention is all you need'' \<le> 1"
  using similarity_score_range [of "''Attention''" "''attention is all you need''"] by simp

text \<open>Evaluation rules for concrete strings.\<close>

lemmas str_eval = lower_def lower_char_def strip_def is_space_def is_digit_def

text \<open>
  C2. After lower-casing and trimming both inputs, the score is exactly 1 when the query
  equals the title. When the query is a proper literal substring of the title, the score
  is read off the word-count delta (title words minus query words) and the ratio of the
  lengths, in this order: 0.98 for delta 0; 0.95 for delta at most 1 and ratio above 0.8;
  0.85 for delta at most 2 and ratio above 0.7; 0.75 for delta at most 3; 0.60 otherwise.
  The query \<open>BERT\<close> against the full title of the BERT paper scores 0.60.
\<close>

theorem similarity_score_exact_and_containment:
  "(strip (lower query) = strip (lower title) \<longrightarrow> similarity_score query title = 1)
   \<and> (strip (lower query) \<noteq> strip (lower title)
        \<and> (\<exists>pre post. strip (lower title) = pre @ strip (lower query) @ post) \<longrightarrow>
      similarity_score query title =
        (let delta = int (length (split_ws (strip (lower title))))
                     - int (length (split_ws (strip (lower query))));
             ratio = real (length (strip (lower query))) / real (length (strip (lower title)))
         in if delta = 0 then 0.98
            else if delta \<le> 1 \<and> ratio > 0.8 then 0.95
            else if delta \<le> 2 \<and> ratio > 0.7 then 0.85
            else if delta \<le> 3 then 0.75
            else 0.6))
   \<and> similarity_score ''BERT''
        ''BERT: Pre-training of Deep Bidirectional Transformers for Language Understanding''
       = 0.6"
proof (intro conjI impI)
  assume "strip (lower query) = strip (lower title)"
  then show "similarity_score query title = 1"
    by (simp add: similarity_score_def)
next
  assume a: "strip (lower query) \<noteq> strip (lower title)
    \<and> (\<exists>pre post. strip (lower title) = pre @ strip (lower query) @ post)"
  then have "py_in (strip (lower query)) (strip (lower title))"
    by (simp add: py_in_iff)
  moreover from a have "strip (lower title) \<noteq> []"
    by auto
  ultimately show "similarity_score query title =
        (let delta = int (length (split_ws (strip (lower title))))
                     - int (length (split_ws (strip (lower query))));
             ratio = real (length (strip (lower query))) / real (length (strip (lower title)))
         in if delta = 0 then 0.98
            else if delta \<le> 1 \<and> ratio > 0.8 then 0.95
            else if delta \<le> 2 \<and> ratio > 0.7 then 0.85
            else if delta \<le> 3 then 0.75
            else 0.6)"
    using a by (simp add: similarity_score_def containment_score_def Let_def)
next
  show "similarity_score ''BERT''
        ''BERT: Pre-training of Deep Bidirectional Transformers for Language Understanding''
       = 0.6"
    by (simp add: similarity_score_def containment_score_def str_eval)
qed

theorem similarity_score_exact_and_containment_witness:
  "similarity_score ''Attention is All You Need'' '' attention is all you need '' = 1
   \<and> similarity_score ''deep learning'' ''Deep Learning.'' = 0.98
   \<and> similarity_score ''graph neural networks'' ''Graph Neural Networks II'' = 0.95
   \<and> similarity_score ''networks'' ''On Neural Networks'' = 0.75"
proof -
  have e1: "strip (lower ''Attention is All You Need'') = strip (lower '' attention is all you need '')"
    by (simp add: str_eval)
  have e2: "strip (lower ''Deep Learning.'') = [] @ strip (lower ''deep learning'') @ ''.''"
    "strip (lower ''deep learning'') \<noteq> strip (lower ''Deep Learning.'')"
    by (simp_all add: str_eval)
  have e3: "strip (lower ''Graph Neural Networks II'') = [] @ strip (lower ''graph neural networks'') @ '' ii''"
    "strip (lower ''graph neural networks'') \<noteq> strip (lower ''Graph Neural Networks II'')"
    by (simp_all add: str_eval)
  have e4: "strip (lower ''On Neural Networks'') = ''on neural '' @ strip (lower ''networks'') @ []"
    "strip (lower ''networks'') \<noteq> strip (lower ''On Neural Networks'')"
    by (simp_all add: str_eval)
  have s1: "similarity_score ''Attention is All You Need'' '' attention is all you need '' = 1"
    using similarity_score_exact_and_containment
      [of "''Attention is All You Need''" "'' attention is all you need ''"] e1
    by blast
  have "\<exists>pre post. strip (lower ''Deep Learning.'') = pre @ strip (lower ''deep learning'') @ post"
    using e2(1) by blast
  with e2(2) have "similarity_score ''deep learning'' ''Deep Learning.'' =
        (let delta = int (length (split_ws (strip (lower ''Deep Learning.''))))
                     - int (length (split_ws (strip (lower ''deep learning''))));
             ratio = real (length (strip (lower ''deep learning''))) / real (length (strip (lower ''Deep Learning.'')))
         in if delta = 0 then 0.98
            else if delta \<le> 1 \<and> ratio > 0.8 then 0.95
            else if delta \<le> 2 \<and> ratio > 0.7 then 0.85
            else if delta \<le> 3 then 0.75
            else 0.6)"
    using similarity_score_exact_and_containment [of "''deep learning''" "''Deep Learning.''"] by blast
  then have s2: "similarity_score ''deep learning'' ''Deep Learning.'' = 0.98"
    by (simp add: str_eval)
  have "\<exists>pre post. strip (lower ''Graph Neural Networks II'') = pre @ strip (lower ''graph neural networks'') @ post"
    using e3(1) by blast
  with e3(2) have "similarity_score ''graph neural networks'' ''Graph Neural Networks II'' =
        (let delta = int (length (split_ws (strip (lower ''Graph Neural Networks II''))))
                     - int (length (split_ws (strip (lower ''graph neural networks''))));
             ratio = real (length (strip (lower ''graph neural networks''))) / real (length (strip (lower ''Graph Neural Networks II'')))
         in if delta = 0 then 0.98
            else if delta \<le> 1 \<and> ratio > 0.8 then 0.95
            else if delta \<le> 2 \<and> ratio > 0.7 then 0.85
            else if delta \<le> 3 then 0.75
            else 0.6)"
    using similarity_score_exact_and_containment [of "''graph neural networks''" "''Graph Neural Networks II''"] by blast
  then have s3: "similarity_score ''graph neural networks'' ''Graph Neural Networks II'' = 0.95"
    by (simp add: str_eval)
  have "\<exists>pre post. strip (lower ''On Neural Networks'') = pre @ strip (lower ''networks'') @ post"
    using e4(1) by blast
  with e4(2) have "similarity_score ''networks'' ''On Neural Networks'' =
        (let delta = int (length (split_ws (strip (lower ''On Neural Networks''))))
                     - int (length (split_ws (strip (lower ''networks''))));
             ratio = real (length (strip (lower ''networks''))) / real (length (strip (lower ''On Neural Networks'')))
         in if delta = 0 then 0.98
            else if delta \<le> 1 \<and> ratio > 0.8 then 0.95
            else if delta \<le> 2 \<and> ratio > 0.7 then 0.85
            else if delta \<le> 3 then 0.75
            else 0.6)"
    using similarity_score_exact_and_containment [of "''networks''" "''On Neural Networks''"] by blast
  then have s4: "similarity_score ''networks'' ''On Neural Networks'' = 0.75"
    by (simp add: str_eval)
  from s1 s2 s3 s4 show ?thesis by simp
qed

lemma py_index_first_pos: "w \<in> set xs \<Longrightarrow> py_index xs w = Some (first_pos xs w)"
  by (induction xs) (auto simp: first_pos_def)

lemma indices_of_map:
  "set ws \<subseteq> set xs \<Longrightarrow> indices_of xs ws = Some (map (first_pos xs) ws)"
  by (induction ws) (simp_all add: py_index_first_pos)

lemma is_ordered_sorted_wrt: "is_ordered ns = sorted_wrt (<) ns"
  by (induction ns rule: is_ordered.induct) (auto intro: less_trans)

text \<open>What the index comparison of the code computes, for any two word lists.\<close>

lemma order_score_first_pos:
  "order_score ws1 ws2 =
     (if length (shared_words ws1 ws2) < 2 then 0
      else if sorted_wrt (<) (map (first_pos (shared_words ws2 ws1)) (shared_words ws1 ws2))
           then 0.3
      else 0.1)"
proof -
  define shared1 where "shared1 = filter (\<lambda>w. w \<in> set ws2) ws1"
  define shared2 where "shared2 = filter (\<lambda>w. w \<in> set ws1) ws2"
  have sub: "set shared1 \<subseteq> set shared2"
    unfolding shared1_def shared2_def by auto
  have ind: "indices_of shared2 shared1 = Some (map (first_pos shared2) shared1)"
    using sub by (rule indices_of_map)
  have "set shared1 = set ws1 \<inter> set ws2"
    unfolding shared1_def by auto
  then have pos: "card (set ws1 \<inter> set ws2) > 0 \<longleftrightarrow> shared1 \<noteq> []"
    by (metis List.finite_set card_gt_0_iff set_empty)
  show ?thesis
  proof (cases "length shared1 > 1")
    case True
    then have "shared1 \<noteq> []" by auto
    with True pos ind show ?thesis
      unfolding order_score_def shared_words_def Let_def
      by (simp add: shared1_def [symmetric] shared2_def [symmetric] is_ordered_sorted_wrt)
  next
    case False
    then have "length shared1 < 2" by simp
    with False show ?thesis
      unfolding order_score_def shared_words_def Let_def
      by (simp add: shared1_def [symmetric] shared2_def [symmetric])
  qed
qed









text \<open>
  With a repeated shared word the index comparison looks at the first occurrence only:
  here the shared words are the same list in both strings.
\<close>

lemma order_score_repeated_word:
  "shared_words [''a'', ''a'', ''b''] [''a'', ''x'', ''a'', ''b'']
     = shared_words [''a'', ''x'', ''a'', ''b''] [''a'', ''a'', ''b'']
   \<and> order_score [''a'', ''a'', ''b''] [''a'', ''x'', ''a'', ''b''] = 1 / 10"
  by (simp add: order_score_first_pos shared_words_def first_pos_def)


lemmas card_eval = card_insert_if Int_insert_left



section \<open>Properties of the source clients\<close>

lemma best_match_loop_score:
  "snd (best_match_loop q ps bm bs) = Max (insert bs ((\<lambda>p. similarity_score q (fst p)) ` set ps))"
proof (induction ps arbitrary: bm bs)
  case Nil
  then show ?case by simp
next
  case (Cons p ps)
  define S where "S = (\<lambda>p. similarity_score q (fst p)) ` set ps"
  have fin: "finite S"
    unfolding S_def by simp
  show ?case
  proof (cases "similarity_score q (fst p) > bs")
    case True
    have "Max (insert bs (insert (similarity_score q (fst p)) S))
        = max bs (Max (insert (similarity_score q (fst p)) S))"
      using fin by simp
    also have "\<dots> = Max (insert (similarity_score q (fst p)) S)"
    proof -
      have "similarity_score q (fst p) \<le> Max (insert (similarity_score q (fst p)) S)"
        using fin by simp
      with True show ?thesis by simp
    qed
    finally show ?thesis
      using True Cons.IH [of "Some p" "similarity_score q (fst p)"]
      by (simp add: S_def)
  next
    case False
    have "Max (insert (similarity_score q (fst p)) (insert bs S))
        = max (similarity_score q (fst p)) (Max (insert bs S))"
      using fin by simp
    also have "\<dots> = Max (insert bs S)"
    proof -
      have "bs \<le> Max (insert bs S)"
        using fin by simp
      with False show ?thesis by simp
    qed
    finally show ?thesis
      using False Cons.IH [of bm bs]
      by (simp add: S_def insert_commute)
  qed
qed

lemma best_match_loop_match:
  "best_match_loop q ps bm bs = (bm', bs') \<Longrightarrow>
     (bm' = bm \<and> bs' = bs) \<or> (\<exists>p \<in> set ps. bm' = Some p \<and> similarity_score q (fst p) = bs')"
proof (induction ps arbitrary: bm bs)
  case Nil
  then show ?case by simp
next
  case (Cons p ps)
  show ?case
  proof (cases "similarity_score q (fst p) > bs")
    case True
    with Cons.prems
    have "best_match_loop q ps (Some p) (similarity_score q (fst p)) = (bm', bs')"
      by simp
    from Cons.IH [OF this] show ?thesis by auto
  next
    case False
    with Cons.prems have "best_match_loop q ps bm bs = (bm', bs')"
      by simp
    from Cons.IH [OF this] show ?thesis by auto
  qed
qed

lemma select_best_Some:
  assumes "select_best q ps = Some p"
  shows "p \<in> set ps \<and> ps \<noteq> []
    \<and> similarity_score q (fst p) = Max ((\<lambda>p. similarity_score q (fst p)) ` set ps)
    \<and> 0.3 \<le> similarity_score q (fst p)"
proof -
  define S where "S = (\<lambda>p. similarity_score q (fst p)) ` set ps"
  obtain bm bs where loop: "best_match_loop q ps None 0 = (bm, bs)"
    by (cases "best_match_loop q ps None 0")
  from assms have ne: "ps \<noteq> []"
    by (auto simp: select_best_def split: if_splits)
  with assms loop have bs: "0.3 \<le> bs" and bm: "bm = Some p"
    by (auto simp: select_best_def split: if_splits)
  from best_match_loop_match [OF loop] bm
  have p: "p \<in> set ps" "similarity_score q (fst p) = bs"
    by auto
  have "bs = Max (insert 0 S)"
    using best_match_loop_score [of q ps None 0] loop by (simp add: S_def)
  moreover have "finite S" "S \<noteq> {}"
    using ne by (simp_all add: S_def)
  ultimately have "bs = max 0 (Max S)"
    by simp
  with bs have "bs = Max S"
    by (simp add: max_def split: if_splits)
  with p bs ne show ?thesis
    by (simp add: S_def)
qed

lemma select_best_None:
  assumes "ps \<noteq> []" and "Max ((\<lambda>p. similarity_score q (fst p)) ` set ps) < 0.3"
  shows "select_best q ps = None"
proof (cases "select_best q ps")
  case None
  then show ?thesis .
next
  case (Some p)
  from select_best_Some [OF this] assms(2) show ?thesis by simp
qed

lemma dblp_candidates_set:
  "c \<in> set (dblp_candidates q hits) \<Longrightarrow>
     \<exists>h \<in> set hits. c_score c = fst (dblp_score q (fst h)) \<and> c_info c = snd h
       \<and> c_title c = fst h \<and> c_word_diff c = snd (dblp_score q (fst h)) \<and> 0 < c_score c"
proof (induction hits)
  case Nil
  then show ?case by simp
next
  case (Cons h hits)
  obtain s d where sd: "dblp_score q (fst h) = (s, d)"
    by (cases "dblp_score q (fst h)")
  show ?case
  proof (cases "s > 0")
    case True
    with Cons.prems sd
    have "c = \<lparr>c_info = snd h, c_score = s, c_title = fst h, c_word_diff = d\<rparr>
        \<or> c \<in> set (dblp_candidates q hits)"
      by simp
    then show ?thesis
    proof
      assume "c = \<lparr>c_info = snd h, c_score = s, c_title = fst h, c_word_diff = d\<rparr>"
      with True sd show ?thesis by simp
    next
      assume "c \<in> set (dblp_candidates q hits)"
      from Cons.IH [OF this] show ?thesis by auto
    qed
  next
    case False
    with Cons.prems sd have "c \<in> set (dblp_candidates q hits)"
      by simp
    from Cons.IH [OF this] show ?thesis by auto
  qed
qed

lemma tie_break_step_cases:
  "tie_break_step q c b = c \<or> tie_break_step q c b = b"
  by (simp add: tie_break_step_def Let_def)

lemma tie_break_fold_in_set:
  "b \<in> set cs \<Longrightarrow> \<forall>i \<in> set is. i < length cs \<Longrightarrow>
     fold (\<lambda>i best. tie_break_step q (cs ! i) best) is b \<in> set cs"
proof (induction "is" arbitrary: b)
  case Nil
  then show ?case by simp
next
  case (Cons i "is")
  from Cons.prems have "cs ! i \<in> set cs"
    by simp
  with Cons.prems(1) have "tie_break_step q (cs ! i) b \<in> set cs"
    using tie_break_step_cases [of q "cs ! i" b] by auto
  with Cons show ?case by simp
qed

lemma tie_break_in_set: "cs \<noteq> [] \<Longrightarrow> tie_break q cs \<in> set cs"
  unfolding tie_break_def
  by (rule tie_break_fold_in_set) (auto simp: neq_Nil_conv)

lemma dblp_search_Some:
  assumes "dblp_search parse q resp = Some r"
  shows "\<exists>hits. resp = Hits hits \<and> hits \<noteq> []
    \<and> (\<exists>h \<in> set hits. 0.3 \<le> fst (dblp_score q (fst h)) \<and> parse (snd h) = Some r)"
proof -
  from assms obtain hits where resp: "resp = Hits hits"
    by (cases resp) (simp_all add: dblp_search_def)
  define cs where "cs = dblp_candidates q hits"
  define best where "best = tie_break q (sort_by_score cs)"
  from assms resp have ne: "hits \<noteq> []" "cs \<noteq> []"
    and ok: "\<not> c_score best < 0.3" "parse (c_info best) = Some r"
    by (auto simp: dblp_search_def Let_def cs_def best_def split: if_splits)
  from ne(2) have "sort_by_score cs \<noteq> []"
    by (metis sort_by_score_def length_sort length_0_conv)
  then have "best \<in> set (sort_by_score cs)"
    unfolding best_def by (rule tie_break_in_set)
  then have "best \<in> set (dblp_candidates q hits)"
    by (simp add: sort_by_score_def cs_def)
  from dblp_candidates_set [OF this] obtain h where
    h: "h \<in> set hits" "c_score best = fst (dblp_score q (fst h))" "c_info best = snd h"
    by auto
  from ok h have "0.3 \<le> fst (dblp_score q (fst h)) \<and> parse (snd h) = Some r"
    by simp
  with h(1) resp ne(1) show ?thesis
    by blast
qed

lemma Max_ge_threshold:
  fixes f :: "'a \<Rightarrow> real"
  assumes "x \<in> set xs" and "t \<le> f x"
  shows "t \<le> Max (f ` set xs)"
proof -
  have "f x \<le> Max (f ` set xs)"
    using assms(1) by simp
  with assms(2) show ?thesis by simp
qed

text \<open>
  C4. Every source client returns a record only if the maximum final score over the
  candidates of its answer is at least 0.3: the Semantic Scholar, CrossRef and Google
  Scholar clients on the similarity score, the DBLP client on its adjusted score; the
  proceedings client never returns a record from \<open>search\<close>. Read the other way: when the
  maximum is below 0.3, each client returns \<open>None\<close> for the query.
\<close>

theorem threshold_law:
  "(semantic_scholar_search parse query resp \<noteq> None \<longrightarrow>
      (\<exists>papers. resp = Hits papers \<and> papers \<noteq> []
         \<and> 0.3 \<le> Max ((\<lambda>p. similarity_score query (fst p)) ` set papers)))
   \<and> (crossref_search parse query resp \<noteq> None \<longrightarrow>
      (\<exists>items. resp = Hits items \<and> items \<noteq> []
         \<and> 0.3 \<le> Max ((\<lambda>p. similarity_score query (fst p)) ` set items)))
   \<and> (google_scholar_search query resp \<noteq> None \<longrightarrow>
      (\<exists>results. resp = Hits results \<and> results \<noteq> []
         \<and> 0.3 \<le> Max ((\<lambda>p. similarity_score query (fst p)) ` set results)))
   \<and> (dblp_search parse_info query resp \<noteq> None \<longrightarrow>
      (\<exists>hits. resp = Hits hits \<and> hits \<noteq> []
         \<and> 0.3 \<le> Max ((\<lambda>h. fst (dblp_score query (fst h))) ` set hits)))
   \<and> pmlr_search query = (None :: 'r option)"
proof (intro conjI impI)
  assume "semantic_scholar_search parse query resp \<noteq> None"
  then obtain papers p where "resp = Hits papers" "select_best query papers = Some p"
    by (auto simp: semantic_scholar_search_def split: response.splits option.splits)
  with select_best_Some [of query papers p]
  show "\<exists>papers. resp = Hits papers \<and> papers \<noteq> []
         \<and> 0.3 \<le> Max ((\<lambda>p. similarity_score query (fst p)) ` set papers)"
    by auto
next
  assume "crossref_search parse query resp \<noteq> None"
  then obtain items p where "resp = Hits items" "select_best query items = Some p"
    by (auto simp: crossref_search_def split: response.splits option.splits)
  with select_best_Some [of query items p]
  show "\<exists>items. resp = Hits items \<and> items \<noteq> []
         \<and> 0.3 \<le> Max ((\<lambda>p. similarity_score query (fst p)) ` set items)"
    by auto
next
  assume "google_scholar_search query resp \<noteq> None"
  then obtain results p where "resp = Hits results" "select_best query results = Some p"
    by (auto simp: google_scholar_search_def split: response.splits option.splits)
  with select_best_Some [of query results p]
  show "\<exists>results. resp = Hits results \<and> results \<noteq> []
         \<and> 0.3 \<le> Max ((\<lambda>p. similarity_score query (fst p)) ` set results)"
    by auto
next
  assume "dblp_search parse_info query resp \<noteq> None"
  then obtain r where "dblp_search parse_info query resp = Some r"
    by auto
  from dblp_search_Some [OF this] obtain hits h where
    h: "resp = Hits hits" "hits \<noteq> []" "h \<in> set hits" "0.3 \<le> fst (dblp_score query (fst h))"
    by auto
  from Max_ge_threshold [of h hits "0.3" "\<lambda>h. fst (dblp_score query (fst h))"] h
  show "\<exists>hits. resp = Hits hits \<and> hits \<noteq> []
         \<and> 0.3 \<le> Max ((\<lambda>h. fst (dblp_score query (fst h))) ` set hits)"
    by auto
next
  show "pmlr_search query = (None :: 'r option)"
    by (simp add: pmlr_search_def)
qed

theorem threshold_law_witness:
  "semantic_scholar_search Some ''deep learning'' (Hits [(''Deep Learning'', 1 :: nat)])
     = Some (''Deep Learning'', 1)
   \<and> 0.3 \<le> Max ((\<lambda>p. similarity_score ''deep learning'' (fst p))
                  ` set [(''Deep Learning'', 1 :: nat)])
   \<and> semantic_scholar_search Some ''deep learning'' (Hits [(''Graph Theory'', 2 :: nat)]) = None"
proof -
  have s: "similarity_score ''deep learning'' ''Deep Learning'' = 1"
    "similarity_score ''deep learning'' ''Graph Theory'' = 0.15"
    by (simp_all add: similarity_score_def word_set_score_def order_score_def str_eval
        card_eval)
  have a: "semantic_scholar_search Some ''deep learning'' (Hits [(''Deep Learning'', 1 :: nat)])
     = Some (''Deep Learning'', 1)"
    by (simp add: semantic_scholar_search_def select_best_def s)
  then have ne: "semantic_scholar_search Some ''deep learning''
      (Hits [(''Deep Learning'', 1 :: nat)]) \<noteq> None"
    by simp
  have "semantic_scholar_search Some ''deep learning'' (Hits [(''Deep Learning'', 1 :: nat)])
      \<noteq> None \<longrightarrow>
    (\<exists>papers. Hits [(''Deep Learning'', 1 :: nat)] = Hits papers \<and> papers \<noteq> []
         \<and> 0.3 \<le> Max ((\<lambda>p. similarity_score ''deep learning'' (fst p)) ` set papers))"
    using threshold_law [where parse = Some and query = "''deep learning''"
      and resp = "Hits [(''Deep Learning'', 1 :: nat)]"]
    by (rule conjunct1)
  from this ne
  have "\<exists>papers. Hits [(''Deep Learning'', 1 :: nat)] = Hits papers \<and> papers \<noteq> []
         \<and> 0.3 \<le> Max ((\<lambda>p. similarity_score ''deep learning'' (fst p)) ` set papers)"
    by (rule mp)
  then have b: "0.3 \<le> Max ((\<lambda>p. similarity_score ''deep learning'' (fst p))
                  ` set [(''Deep Learning'', 1 :: nat)])"
    by auto
  have c: "semantic_scholar_search Some ''deep learning'' (Hits [(''Graph Theory'', 2 :: nat)])
     = None"
    by (simp add: semantic_scholar_search_def select_best_def s)
  from a b c show ?thesis by (intro conjI)
qed

lemma query_coverage_ge_1:
  "1 \<le> query_coverage q t \<longleftrightarrow>
     split_ws (lower q) \<noteq> [] \<and> set (split_ws (lower q)) \<subseteq> set (split_ws (lower t))"
proof (cases "split_ws (lower q) = []")
  case True
  then show ?thesis
    by (simp add: query_coverage_def)
next
  case False
  define Q where "Q = set (split_ws (lower q))"
  define C where "C = set (split_ws (lower t))"
  have fin: "finite Q" and ne: "Q \<noteq> {}"
    using False by (simp_all add: Q_def)
  then have pos: "0 < card Q"
    by (simp add: card_gt_0_iff)
  have "1 \<le> real (card (Q \<inter> C)) / real (card Q) \<longleftrightarrow> card Q \<le> card (Q \<inter> C)"
    using pos by (simp add: le_divide_eq)
  also have "\<dots> \<longleftrightarrow> Q \<inter> C = Q"
  proof
    assume "card Q \<le> card (Q \<inter> C)"
    with fin show "Q \<inter> C = Q"
      by (intro card_seteq) auto
  next
    assume "Q \<inter> C = Q"
    then show "card Q \<le> card (Q \<inter> C)" by simp
  qed
  also have "\<dots> \<longleftrightarrow> Q \<subseteq> C"
    by auto
  finally show ?thesis
    using False ne by (simp add: query_coverage_def Q_def C_def Let_def)
qed

lemma tie_break_step_promotes:
  "tie_break_step q c b = (if promotes q b c then c else b)"
  by (simp add: tie_break_step_def promotes_def Let_def query_coverage_ge_1)

lemma sort_by_score_sorted: "sorted_wrt (\<lambda>a b. c_score a \<ge> c_score b) (sort_by_score cs)"
proof -
  have "sorted (map (\<lambda>c. - c_score c) (sort_key (\<lambda>c. - c_score c) cs))"
    by (rule sorted_sort_key)
  then show ?thesis
    by (simp add: sorted_map sort_by_score_def)
qed

lemma dblp_candidates_map_filter:
  "dblp_candidates q hits =
     map (\<lambda>h. \<lparr>c_info = snd h, c_score = fst (dblp_score q (fst h)), c_title = fst h,
               c_word_diff = snd (dblp_score q (fst h))\<rparr>)
       (filter (\<lambda>h. 0 < fst (dblp_score q (fst h))) hits)"
  by (induction hits) (auto split: prod.splits)

lemma upt_1_3: "[1..<3] = [1, 2]"
  by (simp add: upt_rec)

text \<open>
  C5, as the code has it. For every query and every list of DBLP hits: the base score of
  a hit is multiplied by 0.7 when the word delta exceeds 3 and by 0.9 when it is in
  (1,3]; it is multiplied by 1.1, capped at 1, when the delta is within plus or minus 1
  and the score exceeds 0.5. The hits with a positive adjusted score are sorted by it,
  descending. Among the top three, a lower-ranked candidate replaces the current best
  exactly when its score is less than 0.05 below the current best's, its word delta is
  smaller, the query has at least one word and every query word is in the word set of
  its title.
\<close>

theorem dblp_refinement:
  "dblp_score query title =
     (let base = similarity_score query title;
          delta = int (length (split_ws title)) - int (length (split_ws query))
      in (if delta > 3 then base * 0.7
          else if delta > 1 then base * 0.9
          else if \<bar>delta\<bar> \<le> 1 \<and> base > 0.5 then min 1 (base * 1.1)
          else base, delta))
   \<and> dblp_candidates query hits =
       map (\<lambda>h. \<lparr>c_info = snd h, c_score = fst (dblp_score query (fst h)), c_title = fst h,
                 c_word_diff = snd (dblp_score query (fst h))\<rparr>)
         (filter (\<lambda>h. 0 < fst (dblp_score query (fst h))) hits)
   \<and> sorted_wrt (\<lambda>a b. c_score a \<ge> c_score b) (sort_by_score cs)
   \<and> mset (sort_by_score cs) = mset cs
   \<and> dblp_search parse query (Hits hits) =
       (let candidates = sort_by_score (dblp_candidates query hits)
        in if candidates = [] then None
           else if c_score (tie_break query candidates) < 0.3 then None
           else parse (c_info (tie_break query candidates)))
   \<and> tie_break query [c0] = c0
   \<and> tie_break query [c0, c1] = (if promotes query c0 c1 then c1 else c0)
   \<and> tie_break query (c0 # c1 # c2 # rest) =
       (let best = (if promotes query c0 c1 then c1 else c0)
        in if promotes query best c2 then c2 else best)"
proof -
  have a: "dblp_score query title =
     (let base = similarity_score query title;
          delta = int (length (split_ws title)) - int (length (split_ws query))
      in (if delta > 3 then base * 0.7
          else if delta > 1 then base * 0.9
          else if \<bar>delta\<bar> \<le> 1 \<and> base > 0.5 then min 1 (base * 1.1)
          else base, delta))"
    by (simp add: dblp_score_def Let_def)
  have b: "mset (sort_by_score cs) = mset cs"
    by (simp add: sort_by_score_def)
  have c: "tie_break query [c0] = c0"
    by (simp add: tie_break_def)
  have "[1..<min 3 (length [c0, c1])] = [1]"
    by (simp add: upt_rec)
  then have d: "tie_break query [c0, c1] = (if promotes query c0 c1 then c1 else c0)"
    unfolding tie_break_def by (simp add: tie_break_step_promotes)
  have "[1..<min 3 (length (c0 # c1 # c2 # rest))] = [1, 2]"
    by (simp add: upt_1_3)
  then have e: "tie_break query (c0 # c1 # c2 # rest) =
       (let best = (if promotes query c0 c1 then c1 else c0)
        in if promotes query best c2 then c2 else best)"
    unfolding tie_break_def by (simp add: tie_break_step_promotes Let_def)
  have n: "sort_by_score xs = [] \<longleftrightarrow> xs = []" for xs :: "'a candidate list"
    by (metis sort_by_score_def length_sort length_0_conv)
  have f: "dblp_search parse query (Hits hits) =
       (let candidates = sort_by_score (dblp_candidates query hits)
        in if candidates = [] then None
           else if c_score (tie_break query candidates) < 0.3 then None
           else parse (c_info (tie_break query candidates)))"
  proof (cases "hits = []")
    case True
    then show ?thesis
      by (simp add: dblp_search_def sort_by_score_def)
  next
    case False
    then show ?thesis
      by (simp add: dblp_search_def Let_def n)
  qed
  from a dblp_candidates_map_filter [of query hits] sort_by_score_sorted [of cs] b f c d e
  show ?thesis
    by (intro conjI)
qed

theorem dblp_refinement_witness:
  "dblp_score ''deep learning'' ''on deep learning'' = (1, 1)
   \<and> tie_break ''deep learning''
        [\<lparr>c_info = 0 :: nat, c_score = 1, c_title = ''on deep learning'', c_word_diff = 1\<rparr>,
         \<lparr>c_info = 1, c_score = 1, c_title = ''Deep Learning'', c_word_diff = 0\<rparr>]
       = \<lparr>c_info = 1, c_score = 1, c_title = ''Deep Learning'', c_word_diff = 0\<rparr>"
proof -
  define c0 where
    "c0 = \<lparr>c_info = 0 :: nat, c_score = 1, c_title = ''on deep learning'', c_word_diff = 1\<rparr>"
  define c1 where
    "c1 = \<lparr>c_info = 1 :: nat, c_score = 1, c_title = ''Deep Learning'', c_word_diff = 0\<rparr>"
  note th = dblp_refinement [of "''deep learning''" "''on deep learning''" "[]" "[]" Some c0 c1]
  have s: "similarity_score ''deep learning'' ''on deep learning'' = 0.95"
    by (simp add: similarity_score_def containment_score_def str_eval)
  have w: "split_ws ''deep learning'' = [''deep'', ''learning'']"
    "split_ws ''on deep learning'' = [''on'', ''deep'', ''learning'']"
    "split_ws (lower ''deep learning'') = [''deep'', ''learning'']"
    "split_ws (lower ''Deep Learning'') = [''deep'', ''learning'']"
    by (simp_all add: str_eval)
  from th have "dblp_score ''deep learning'' ''on deep learning'' =
     (let base = similarity_score ''deep learning'' ''on deep learning'';
          delta = int (length (split_ws ''on deep learning''))
                  - int (length (split_ws ''deep learning''))
      in (if delta > 3 then base * 0.7
          else if delta > 1 then base * 0.9
          else if \<bar>delta\<bar> \<le> 1 \<and> base > 0.5 then min 1 (base * 1.1)
          else base, delta))"
    by (rule conjunct1)
  then have a: "dblp_score ''deep learning'' ''on deep learning'' = (1, 1)"
    by (simp only: s w) simp
  have p: "promotes ''deep learning'' c0 c1"
    by (simp add: promotes_def c0_def c1_def w)
  from th have "tie_break ''deep learning'' [c0, c1]
      = (if promotes ''deep learning'' c0 c1 then c1 else c0)"
    by blast
  with p have "tie_break ''deep learning'' [c0, c1] = c1"
    by simp
  with a show ?thesis
    by (simp add: c0_def c1_def)
qed

text \<open>
  The claim as the specification words it fails for a query without words: every query
  word is then in every title, so the specification's rule promotes the shorter title,
  but the code computes a coverage of 0 for such a query and keeps the first candidate.
\<close>

theorem tie_break_counterexample:
  "sort_by_score (dblp_candidates [] [(''a b c'', 0 :: nat), (''a b'', 1)]) =
     [\<lparr>c_info = 0, c_score = 27 / 40, c_title = ''a b c'', c_word_diff = 3\<rparr>,
      \<lparr>c_info = 1, c_score = 27 / 40, c_title = ''a b'', c_word_diff = 2\<rparr>]
   \<and> spec_promotes []
        \<lparr>c_info = 0 :: nat, c_score = 27 / 40, c_title = ''a b c'', c_word_diff = 3\<rparr>
        \<lparr>c_info = 1, c_score = 27 / 40, c_title = ''a b'', c_word_diff = 2\<rparr>
   \<and> tie_break []
        [\<lparr>c_info = 0 :: nat, c_score = 27 / 40, c_title = ''a b c'', c_word_diff = 3\<rparr>,
         \<lparr>c_info = 1, c_score = 27 / 40, c_title = ''a b'', c_word_diff = 2\<rparr>]
       = \<lparr>c_info = 0, c_score = 27 / 40, c_title = ''a b c'', c_word_diff = 3\<rparr>
   \<and> dblp_search Some [] (Hits [(''a b c'', 0 :: nat), (''a b'', 1)]) = Some 0"
proof -
  define c0 where
    "c0 = \<lparr>c_info = 0 :: nat, c_score = 27 / 40, c_title = ''a b c'', c_word_diff = 3\<rparr>"
  define c1 where
    "c1 = \<lparr>c_info = 1 :: nat, c_score = 27 / 40, c_title = ''a b'', c_word_diff = 2\<rparr>"
  have sc: "dblp_score [] ''a b c'' = (27 / 40, 3)" "dblp_score [] ''a b'' = (27 / 40, 2)"
    by (simp_all add: dblp_score_def similarity_score_def containment_score_def str_eval)
  have cs: "dblp_candidates [] [(''a b c'', 0 :: nat), (''a b'', 1)] = [c0, c1]"
    by (simp add: sc c0_def c1_def)
  have so: "sort_by_score [c0, c1] = [c0, c1]"
    by (simp add: sort_by_score_def c0_def c1_def)
  have sp: "spec_promotes [] c0 c1"
    by (simp add: spec_promotes_def lower_def c0_def c1_def)
  have tb: "tie_break [] [c0, c1] = c0"
    by (simp add: tie_break_def tie_break_step_def query_coverage_def lower_def upt_rec
        c0_def c1_def)
  have ds: "dblp_search Some [] (Hits [(''a b c'', 0 :: nat), (''a b'', 1)]) = Some 0"
    by (simp only: dblp_search_def response.simps cs so tb Let_def) (simp add: c0_def)
  from cs so sp tb ds show ?thesis
    by (simp add: c0_def c1_def)
qed

section \<open>Properties of the cache\<close>

text \<open>
  C6. On a cache whose loaded metadata is a JSON object: after \<open>set(q, r)\<close> a \<open>get(q)\<close>
  returns \<open>r\<close>, without raising, and leaves the cache as it is, as long as the clock has
  not passed \<open>cached_at\<close> plus the configured 30 days. Once it has, \<open>get(q)\<close> returns
  \<open>None\<close> and removes the payload file and the metadata entry, in memory and in the
  metadata file. A manager opened later on the same directory finds the cache as \<open>set\<close>
  left it, so the same holds across runs of the program.
\<close>

theorem cache_round_trip:
  "is_dict (metadata c) \<longrightarrow>
   (now' \<le> now + CACHE_EXPIRY_DAYS * day \<longrightarrow>
      get now' q (set_cache True now q r c) = (Inr (Some r), set_cache True now q r c))
   \<and> (now' > now + CACHE_EXPIRY_DAYS * day \<longrightarrow>
      fst (get now' q (set_cache True now q r c)) = Inr None
      \<and> files (snd (get now' q (set_cache True now q r c))) (get_cache_key q) = None
      \<and> metadata_entry (metadata (snd (get now' q (set_cache True now q r c))))
           (get_cache_key q) = None
      \<and> metadata_entry
           (load_metadata (metadata_file (snd (get now' q (set_cache True now q r c)))))
           (get_cache_key q) = None)
   \<and> reopen (set_cache True now q r c) = set_cache True now q r c"
proof (cases "metadata c")
  case (Dict m)
  then show ?thesis
    by (simp add: get_def set_cache_def save_metadata_def delete_def fromisoformat_def
        metadata_cached_at_def plus_days_def now_after_def metadata_entry_def
        read_cache_def json_load_def load_metadata_def reopen_def open_cache_def Let_def)
next
  case (NotADict v)
  then show ?thesis
    by (simp add: is_dict_def)
qed

theorem cache_round_trip_witness:
  "is_dict (metadata (empty_cache :: nat cache))
   \<and> get (29 * day) ''bert'' (set_cache True 0 ''bert'' (1 :: nat) empty_cache)
     = (Inr (Some 1), set_cache True 0 ''bert'' 1 empty_cache)
   \<and> fst (get (31 * day) ''bert''
        (set_cache True 0 ''bert'' (1 :: nat) empty_cache)) = Inr None
   \<and> files (snd (get (31 * day) ''bert''
        (set_cache True 0 ''bert'' (1 :: nat) empty_cache)))
        (get_cache_key ''bert'') = None
   \<and> metadata_entry (metadata (snd (get (31 * day) ''bert''
        (set_cache True 0 ''bert'' (1 :: nat) empty_cache))))
        (get_cache_key ''bert'') = None
   \<and> fst (get (31 * day) ''bert''
        (reopen (set_cache True 0 ''bert'' (1 :: nat) empty_cache))) = Inr None"
proof -
  have d: "is_dict (metadata (empty_cache :: nat cache))"
    by (simp add: empty_cache_def open_cache_def load_metadata_def is_dict_def)
  have early: "29 * day \<le> 0 + CACHE_EXPIRY_DAYS * day"
    and late: "31 * day > 0 + CACHE_EXPIRY_DAYS * day"
    by (simp_all add: CACHE_EXPIRY_DAYS_def day_def)
  from d early late
    cache_round_trip [of "empty_cache :: nat cache" "29 * day" 0 "''bert''" "1 :: nat"]
    cache_round_trip [of "empty_cache :: nat cache" "31 * day" 0 "''bert''" "1 :: nat"]
  show ?thesis
    by (simp only:)
qed

lemma lower_char_idem: "lower_char (lower_char c) = lower_char c"
  by (cases c) (auto simp: lower_char_def)

lemma lower_idem: "lower (lower s) = lower s"
  by (simp add: lower_def lower_char_idem)

lemma delete_cong_key:
  assumes "get_cache_key q1 = get_cache_key q2"
  shows "delete q1 c = delete q2 c"
  using assms by (simp add: delete_def)

lemma get_cong_key:
  assumes "get_cache_key q1 = get_cache_key q2"
  shows "get now q1 c = get now q2 c"
  unfolding get_def assms delete_cong_key [OF assms, of c] by (rule refl)

text \<open>Evaluation rules for MD5 digests of concrete strings.\<close>

lemma upt_0_numeral: "[0..<numeral n] = 0 # [Suc 0..<numeral n]"
  by (simp add: upt_conv_Cons)

lemma upt_Suc_0_numeral:
  "[Suc 0..<numeral n] = (if Suc 0 < numeral n then Suc 0 # [2..<numeral n] else [])"
  by (simp add: upt_conv_Cons numeral_2_eq_2)

lemma chunks_numeral:
  "chunks (numeral k) n xs = take n xs # chunks (pred_numeral k) n (drop n xs)"
  using chunks.simps(2) [of "pred_numeral k" n xs] by (simp only: numeral_eq_Suc)

lemma le_bytes_numeral:
  "le_bytes (numeral k) x = (x mod 256) # le_bytes (pred_numeral k) (x div 256)"
  using le_bytes.simps(2) [of "pred_numeral k" x] by (simp only: numeral_eq_Suc)

lemma chunks_one: "chunks 1 n xs = [take n xs]"
  using chunks.simps(2) [of 0 n xs] by simp

lemma le_bytes_one: "le_bytes 1 x = [x mod 256]"
  using le_bytes.simps(2) [of 0 x] by simp

lemma replicate_num: "replicate (numeral k) x = x # replicate (pred_numeral k) x"
  using replicate.simps(2) [of "pred_numeral k" x] by (simp only: numeral_eq_Suc)

lemmas md5_eval = replicate_num md5_hexdigest_def md5_def hexdigest_def hex_digit_def
  md5_words_def md5_pad_def encode_utf8_def upt_0_numeral upt_Suc_0_numeral add32_def not32_def rotl32_def md5_F_def
  md5_G_def md5_H_def md5_I_def md5_K_def md5_s_def chunks_numeral le_bytes_numeral chunks_one
  le_bytes_one

lemma md5_abc: "md5_hexdigest ''abc'' = ''900150983cd24fb0d6963f7d28e17f72''"
  by (simp add: md5_eval)

lemma md5_empty: "md5_hexdigest [] = ''d41d8cd98f00b204e9800998ecf8427e''"
  by (simp add: md5_eval)

lemma md5_bert: "md5_hexdigest ''bert'' = ''3de0746a7d2762a87add40dac2bc95a0''"
  by (simp add: md5_eval)

lemma md5_space_bert: "md5_hexdigest '' bert'' = ''9eb691a1e813916baca4bd40429f53d6''"
  by (simp add: md5_eval)

text \<open>
  C7, as the code has it. The cache key is the MD5 digest of the lower-cased query, a
  function of the query alone. Two queries that differ only in letter case have the same
  key and address the same cache entry. The query is not trimmed.
\<close>

theorem cache_key_lower_case:
  "get_cache_key query = md5_hexdigest (lower query)
   \<and> get_cache_key (lower query) = get_cache_key query
   \<and> (lower q1 = lower q2 \<longrightarrow>
        get_cache_key q1 = get_cache_key q2 \<and> get now q1 c = get now q2 c)"
proof -
  have "lower q1 = lower q2 \<longrightarrow> get_cache_key q1 = get_cache_key q2"
    by (simp add: get_cache_key_def)
  then show ?thesis
    using get_cong_key [of q1 q2 now c]
    by (auto simp: get_cache_key_def lower_idem)
qed

theorem cache_key_lower_case_witness:
  "get_cache_key ''BERT'' = get_cache_key ''bert''
   \<and> get_cache_key ''BERT'' = ''3de0746a7d2762a87add40dac2bc95a0''
   \<and> fst (get 0 ''BERT'' (set_cache True 0 ''bert'' (1 :: nat) empty_cache))
       = Inr (Some 1)"
proof -
  have l: "lower ''BERT'' = lower ''bert''" "lower ''BERT'' = ''bert''"
    by (simp_all add: str_eval)
  note th = cache_key_lower_case [of "''BERT''" "''BERT''" "''bert''" 0
      "set_cache True 0 ''bert'' (1 :: nat) empty_cache"]
  from th l(1) have k: "get_cache_key ''BERT'' = get_cache_key ''bert''"
    and g: "get 0 ''BERT'' (set_cache True 0 ''bert'' (1 :: nat) empty_cache)
      = get 0 ''bert'' (set_cache True 0 ''bert'' (1 :: nat) empty_cache)"
    by blast+
  from th have "get_cache_key ''BERT'' = md5_hexdigest (lower ''BERT'')"
    by blast
  then have d: "get_cache_key ''BERT'' = ''3de0746a7d2762a87add40dac2bc95a0''"
    by (simp only: l(2) md5_bert)
  have "fst (get 0 ''bert'' (set_cache True 0 ''bert'' (1 :: nat) empty_cache))
      = Inr (Some 1)"
    by (simp add: get_def set_cache_def save_metadata_def fromisoformat_def read_cache_def
        metadata_cached_at_def plus_days_def now_after_def empty_cache_def open_cache_def
        load_metadata_def json_load_def CACHE_EXPIRY_DAYS_def day_def Let_def)
  with g have "fst (get 0 ''BERT''
      (set_cache True 0 ''bert'' (1 :: nat) empty_cache)) = Inr (Some 1)"
    by simp
  with k d show ?thesis
    by (intro conjI)
qed

text \<open>
  The claim fails for leading or trailing whitespace: the queries \<open>bert\<close> and \<open>bert\<close>
  with a space in front are equal after lower-casing and trimming, but they have
  different keys, and a record stored under one is not found under the other.
\<close>

theorem cache_key_whitespace_counterexample:
  "strip (lower '' bert'') = strip (lower ''bert'')
   \<and> get_cache_key '' bert'' = ''9eb691a1e813916baca4bd40429f53d6''
   \<and> get_cache_key ''bert'' = ''3de0746a7d2762a87add40dac2bc95a0''
   \<and> get_cache_key '' bert'' \<noteq> get_cache_key ''bert''
   \<and> fst (get 0 '' bert'' (set_cache True 0 ''bert'' (1 :: nat) empty_cache))
       = Inr None"
proof -
  have l: "lower '' bert'' = '' bert''" "lower ''bert'' = ''bert''"
    by (simp_all add: str_eval)
  have s: "strip (lower '' bert'') = strip (lower ''bert'')"
    by (simp add: str_eval)
  have k1: "get_cache_key '' bert'' = ''9eb691a1e813916baca4bd40429f53d6''"
    by (simp only: get_cache_key_def l md5_space_bert)
  have k2: "get_cache_key ''bert'' = ''3de0746a7d2762a87add40dac2bc95a0''"
    by (simp only: get_cache_key_def l md5_bert)
  have ne: "get_cache_key '' bert'' \<noteq> get_cache_key ''bert''"
    by (simp only: k1 k2) simp
  have "files (set_cache True 0 ''bert'' (1 :: nat) empty_cache)
      (get_cache_key '' bert'') = None"
    using ne by (simp add: set_cache_def save_metadata_def open_cache_def empty_cache_def
        load_metadata_def Let_def)
  then have m: "fst (get 0 '' bert''
      (set_cache True 0 ''bert'' (1 :: nat) empty_cache)) = Inr None"
    by (simp add: get_def Let_def)
  from s k1 k2 ne m show ?thesis
    by (intro conjI)
qed

section \<open>Properties of the orchestrator\<close>





lemma doi_stage_filled: "truthy (r_pages r) \<Longrightarrow> doi_stage e r = r"
  by (simp add: doi_stage_def split: option.splits)

lemma extraction_stage_filled: "truthy (r_pages r) \<Longrightarrow> extraction_stage e engines r = Inr r"
  by (simp add: extraction_stage_def doi_stage_filled)





lemma get_unreadable_payload:
  assumes "files c (get_cache_key q) = Some Unreadable"
    and "object_shaped_at (metadata c) (get_cache_key q)"
  shows "fst (get now q c) = Inr None"
proof (cases "metadata c")
  case (NotADict v)
  with assms(2) show ?thesis
    by (simp add: object_shaped_at_def)
next
  case (Dict m)
  show ?thesis
  proof (cases "m (get_cache_key q)")
    case None
    with Dict assms(1) show ?thesis
      by (simp add: get_def metadata_cached_at_def read_cache_def json_load_def)
  next
    case (Some v)
    show ?thesis
    proof (cases v)
      case NotAnEntry
      with Some Dict assms(2) show ?thesis
        by (simp add: object_shaped_at_def)
    next
      case (Entry en)
      show ?thesis
      proof (cases "cached_at en")
        case (Stamp t)
        with Entry Some Dict assms(1) show ?thesis
          by (cases "t + CACHE_EXPIRY_DAYS * day < now")
            (simp_all add: get_def metadata_cached_at_def fromisoformat_def plus_days_def
              now_after_def delete_def save_metadata_def read_cache_def json_load_def Let_def)
      qed (use Entry Some Dict assms(1) in \<open>simp_all add: get_def metadata_cached_at_def
          fromisoformat_def plus_days_def now_after_def read_cache_def json_load_def\<close>)
    qed
  qed
qed

lemma search_after_miss:
  assumes "fst (get now q c) = Inr None"
  shows "fst (search e searchers writable now q True search_engines c)
    = engine_loop e searchers (engines_or_default search_engines) q
        (engines_or_default search_engines)"
proof -
  obtain c1 where "get now q c = (Inr None, c1)"
    using assms by (cases "get now q c") simp
  then show ?thesis
    by (simp add: search_def Let_def split: sum.splits option.splits)
qed

text \<open>
  Metadata of another shape. The metadata file may hold any JSON value, and
  \<open>_load_metadata\<close> returns it as it is. Where the payload file exists and the metadata,
  or the value under the key, is not an object, reading the time stamp raises
  \<open>AttributeError\<close>; it leaves \<open>get\<close>, and a \<open>search\<close> that uses the cache.
\<close>

lemma get_misshapen_metadata:
  assumes "files c (get_cache_key q) \<noteq> None"
    and "\<not> object_shaped_at (metadata c) (get_cache_key q)"
  shows "get now q c = (Inl AttributeError, c)"
    and "search e searchers writable now q True search_engines c = (Inl AttributeError, c)"
proof -
  from assms(2) have "metadata_cached_at (metadata c) (get_cache_key q) = Inl AttributeError"
    by (simp add: object_shaped_at_def metadata_cached_at_def
        split: meta_value.splits option.splits entry_value.splits)
  with assms(1) show g: "get now q c = (Inl AttributeError, c)"
    by (auto simp: get_def Let_def)
  then show "search e searchers writable now q True search_engines c = (Inl AttributeError, c)"
    by (simp add: search_def)
qed

text \<open>
  C9, as the code has it. On metadata that is a JSON object whose value under the key,
  if any, is an object, an unreadable payload file makes \<open>get\<close> return \<open>None\<close>; nothing
  is raised, and \<open>search\<close> goes on to the engines. An unreadable metadata file is loaded
  as the empty dictionary: \<open>get\<close> then raises nothing, skips the expiry check and returns
  the payload when it is readable, \<open>None\<close> when it is not. The same holds for an entry
  whose time stamp is missing, cannot be parsed, or carries a UTC offset. Nothing is
  stated here about metadata of another shape.
\<close>

theorem cache_corruption:
  "(files c (get_cache_key q) = Some Unreadable
      \<and> object_shaped_at (metadata c) (get_cache_key q) \<longrightarrow>
      fst (get now q c) = Inr None
      \<and> fst (search e searchers writable now q True search_engines c)
          = engine_loop e searchers (engines_or_default search_engines) q
              (engines_or_default search_engines))
   \<and> get now q (open_cache fs MetaUnreadable) =
       (Inr (case fs (get_cache_key q) of
               None \<Rightarrow> None
             | Some Unreadable \<Rightarrow> None
             | Some (Json r) \<Rightarrow> Some r),
        open_cache fs MetaUnreadable)
   \<and> (metadata c = Dict m \<and> m (get_cache_key q) = Some (Entry en)
        \<and> (\<forall>t. cached_at en \<noteq> Stamp t) \<longrightarrow>
       get now q c =
        (Inr (case files c (get_cache_key q) of
                None \<Rightarrow> None
              | Some Unreadable \<Rightarrow> None
              | Some (Json r) \<Rightarrow> Some r),
         c))"
proof (intro conjI impI)
  assume "files c (get_cache_key q) = Some Unreadable
      \<and> object_shaped_at (metadata c) (get_cache_key q)"
  then show "fst (get now q c) = Inr None"
    by (simp add: get_unreadable_payload)
next
  assume "files c (get_cache_key q) = Some Unreadable
      \<and> object_shaped_at (metadata c) (get_cache_key q)"
  then have "fst (get now q c) = Inr None"
    by (simp add: get_unreadable_payload)
  then show "fst (search e searchers writable now q True search_engines c)
      = engine_loop e searchers (engines_or_default search_engines) q
          (engines_or_default search_engines)"
    by (rule search_after_miss)
next
  show "get now q (open_cache fs MetaUnreadable) =
       (Inr (case fs (get_cache_key q) of
               None \<Rightarrow> None
             | Some Unreadable \<Rightarrow> None
             | Some (Json r) \<Rightarrow> Some r),
        open_cache fs MetaUnreadable)"
    by (simp add: get_def open_cache_def load_metadata_def metadata_cached_at_def
        read_cache_def json_load_def split: option.splits payload_file.splits)
next
  assume a: "metadata c = Dict m \<and> m (get_cache_key q) = Some (Entry en)
      \<and> (\<forall>t. cached_at en \<noteq> Stamp t)"
  show "get now q c =
        (Inr (case files c (get_cache_key q) of
                None \<Rightarrow> None
              | Some Unreadable \<Rightarrow> None
              | Some (Json r) \<Rightarrow> Some r),
         c)"
  proof (cases "cached_at en")
    case (Stamp t)
    with a show ?thesis by simp
  qed (use a in \<open>simp_all add: get_def metadata_cached_at_def fromisoformat_def
      plus_days_def now_after_def read_cache_def json_load_def
      split: option.splits payload_file.splits\<close>)
qed

theorem cache_corruption_witness:
  "fst (get 0 ''bert''
     (corrupt_payload ''bert'' (set_cache True 0 ''bert'' example_record empty_cache)))
     = Inr None
   \<and> fst (search offline example_searchers True 0 ''bert'' True None
       (corrupt_payload ''bert'' (set_cache True 0 ''bert'' example_record empty_cache)))
     = Inr (Some example_record)
   \<and> fst (get (1000 * day) ''bert''
       (open_cache [get_cache_key ''bert'' \<mapsto> Json example_record]
          (MetaJson (Dict [get_cache_key ''bert'' \<mapsto>
             Entry \<lparr>m_query = ''bert'', cached_at = AwareStamp 0\<rparr>]))))
     = Inr (Some example_record)"
proof -
  let ?c = "corrupt_payload ''bert'' (set_cache True 0 ''bert'' example_record empty_cache)"
  let ?m = "[get_cache_key ''bert'' \<mapsto> Entry \<lparr>m_query = ''bert'', cached_at = AwareStamp 0\<rparr>]"
  let ?d = "open_cache [get_cache_key ''bert'' \<mapsto> Json example_record] (MetaJson (Dict ?m))"
  have f: "files ?c (get_cache_key ''bert'') = Some Unreadable"
    by (simp add: corrupt_payload_def)
  have o: "object_shaped_at (metadata ?c) (get_cache_key ''bert'')"
    by (simp add: corrupt_payload_def set_cache_def save_metadata_def empty_cache_def
        open_cache_def load_metadata_def object_shaped_at_def Let_def)
  have l: "engine_loop offline example_searchers (engines_or_default None) ''bert''
      (engines_or_default None) = Inr (Some example_record)"
    by (simp add: engines_or_default_def SEARCH_ENGINES_def example_searchers_def
        extraction_stage_filled example_record_def truthy_def)
  have s: "metadata ?d = Dict ?m \<and> ?m (get_cache_key ''bert'')
        = Some (Entry \<lparr>m_query = ''bert'', cached_at = AwareStamp 0\<rparr>)
      \<and> (\<forall>t. cached_at \<lparr>m_query = ''bert'', cached_at = AwareStamp 0\<rparr> \<noteq> Stamp t)"
    by (simp add: open_cache_def load_metadata_def)
  note th1 = cache_corruption [where c = ?c and q = "''bert''" and now = 0 and e = offline
      and searchers = example_searchers and writable = True and search_engines = None]
  note th2 = cache_corruption [where c = ?d and q = "''bert''" and m = ?m
      and en = "\<lparr>m_query = ''bert'', cached_at = AwareStamp 0\<rparr>" and now = "1000 * day"]
  from f o have h: "files ?c (get_cache_key ''bert'') = Some Unreadable
      \<and> object_shaped_at (metadata ?c) (get_cache_key ''bert'')"
    by (intro conjI)
  have a: "fst (get 0 ''bert'' ?c) = Inr None"
    by (rule conjunct1 [OF mp [OF conjunct1 [OF th1] h]])
  have "fst (search offline example_searchers True 0 ''bert'' True None ?c)
      = engine_loop offline example_searchers (engines_or_default None) ''bert''
          (engines_or_default None)"
    by (rule conjunct2 [OF mp [OF conjunct1 [OF th1] h]])
  with l have b: "fst (search offline example_searchers True 0 ''bert'' True None ?c)
      = Inr (Some example_record)"
    by simp
  have "get (1000 * day) ''bert'' ?d =
      (Inr (case files ?d (get_cache_key ''bert'') of
              None \<Rightarrow> None
            | Some Unreadable \<Rightarrow> None
            | Some (Json r) \<Rightarrow> Some r), ?d)"
    by (rule mp [OF conjunct2 [OF conjunct2 [OF th2]] s])
  then have c: "fst (get (1000 * day) ''bert'' ?d) = Inr (Some example_record)"
    by (simp add: open_cache_def)
  from a b c show ?thesis
    by (intro conjI)
qed

text \<open>
  The claim fails for unreadable metadata: a record is cached, the metadata file is
  damaged, and a manager opened on the directory a thousand days later still returns the
  record from \<open>get\<close> instead of reporting a miss.
\<close>

theorem cache_corruption_counterexample:
  "metadata_entry
     (metadata (open_cache (files (set_cache True 0 ''bert'' example_record empty_cache))
        MetaUnreadable))
     (get_cache_key ''bert'') = None
   \<and> fst (get (1000 * day) ''bert''
        (open_cache (files (set_cache True 0 ''bert'' example_record empty_cache)) MetaUnreadable))
       = Inr (Some example_record)"
  by (simp add: get_def open_cache_def load_metadata_def read_cache_def json_load_def
      metadata_cached_at_def metadata_entry_def set_cache_def save_metadata_def
      empty_cache_def Let_def)

end
